theory Spec2Isabelle
  imports Complex_Main
begin

section \<open>Values and tables\<close>

text \<open>
  The program is \<^verbatim>\<open>dags/gcs_log_extract_dag.py\<close>: two Airflow tasks, \<^verbatim>\<open>transform_logs\<close> and
  \<^verbatim>\<open>load_to_bigquery\<close>, written with pandas. A pandas table is modelled by its row count
  and the list of its labelled columns, in column order; a column is the list of its cells.
  Repeated labels are possible, as in pandas.

  A finite float64 value is modelled by the rational it denotes; where the program computes
  a float64 from other numbers, the result is rounded to the nearest float64 (\<open>float64_of\<close>
  below). Characters are those of HOL's \<open>char\<close>; labels and text are taken to be ASCII.
\<close>

datatype date = Date (year: int) (month: nat) (day: nat)

datatype instant = Instant (on: date) (hour: nat) (minute: nat) (second: nat)

datatype float64 = Finite rat | PosInf | NegInf

datatype cell =
    NaN
  | NaT
  | IntV int
  | FloatV float64
  | BoolV bool
  | StrV string
  | TsV instant
  | DateV date

record dataframe =
  nrows :: nat
  cols :: "(string \<times> cell list) list"

datatype error =
    KeyError string
  | AmbiguousColumn string
  | MissingRequiredColumns "string list"
  | DateParseError cell
  | IntCastingNaNError
  | NaNToInteger
  | InvalidLiteral string
  | CastTypeError cell
  | EmptyDataError
  | ParserError
  | NoTransformedData
  | ObjectNotFound

definition columns :: "dataframe \<Rightarrow> string list" where
  "columns df = map fst (cols df)"

definition isna :: "cell \<Rightarrow> bool" where
  "isna c = (c = NaN \<or> c = NaT)"

text \<open>
  Sequencing of steps that may raise: the first error ends the computation.
\<close>

definition and_then :: "error + 'a \<Rightarrow> ('a \<Rightarrow> error + 'b) \<Rightarrow> error + 'b" where
  "and_then r f = (case r of Inl e \<Rightarrow> Inl e | Inr x \<Rightarrow> f x)"

text \<open>
  \<^verbatim>\<open>df[k]\<close> read as one column. A label carried by several columns selects a
  two-dimensional frame in pandas; the column operations the program applies to it next
  raise, and the model raises at the selection.
\<close>

definition getcol :: "dataframe \<Rightarrow> string \<Rightarrow> error + cell list" where
  "getcol df k =
     (case filter (\<lambda>p. fst p = k) (cols df) of
        [] \<Rightarrow> Inl (KeyError k)
      | [p] \<Rightarrow> Inr (snd p)
      | _ \<Rightarrow> Inl (AmbiguousColumn k))"

text \<open>
  \<^verbatim>\<open>df[k] = v\<close>: every column labelled \<open>k\<close> is replaced in place; when there is none, a
  new column is appended on the right.
\<close>

definition setcol :: "dataframe \<Rightarrow> string \<Rightarrow> cell list \<Rightarrow> dataframe" where
  "setcol df k v =
     (if k \<in> set (columns df)
      then df\<lparr>cols := map (\<lambda>p. if fst p = k then (k, v) else p) (cols df)\<rparr>
      else df\<lparr>cols := cols df @ [(k, v)]\<rparr>)"

section \<open>Rounding to float64\<close>

text \<open>The number of binary digits of a natural number.\<close>

fun bit_length :: "nat \<Rightarrow> nat" where
  "bit_length n = (if n = 0 then 0 else Suc (bit_length (n div 2)))"

declare bit_length.simps [simp del]

definition pow2 :: "int \<Rightarrow> rat" where
  "pow2 e = (if 0 \<le> e then 2 ^ nat e else 1 / 2 ^ nat (- e))"

text \<open>For \<open>x > 0\<close>, \<open>ilog2 x\<close> is the exponent \<open>e\<close> with \<open>2 ^ e \<le> x < 2 ^ (e + 1)\<close>.\<close>

definition ilog2 :: "rat \<Rightarrow> int" where
  "ilog2 x =
     (if 1 \<le> x then int (bit_length (nat \<lfloor>x\<rfloor>)) - 1
      else - int (bit_length (nat (\<lceil>1 / x\<rceil> - 1))))"

definition round_half_even :: "rat \<Rightarrow> int" where
  "round_half_even x =
     (let n = \<lfloor>x\<rfloor>; r = x - of_int n
      in if r < 1 / 2 then n else if 1 / 2 < r then n + 1 else if even n then n else n + 1)"

text \<open>
  The float64 nearest to a rational, a tie going to the even significand: \<open>m\<close> is the
  significand, of 53 binary digits, and \<open>e\<close> the exponent of its last digit, no less than
  -1074. The result is an infinity when the rounded value \<open>m * 2 ^ e\<close> reaches \<open>2 ^ 1024\<close>,
  that is when \<open>e\<close> is above 971, or is 971 with \<open>m\<close> rounded up to \<open>2 ^ 53\<close>.
\<close>

definition float64_of :: "rat \<Rightarrow> float64" where
  "float64_of x =
     (if x = 0 then Finite 0
      else
        let e = max (ilog2 \<bar>x\<bar> - 52) (- 1074);
            m = round_half_even (\<bar>x\<bar> / pow2 e)
        in if 971 < e \<or> e = 971 \<and> 2 ^ 53 \<le> m then (if x < 0 then NegInf else PosInf)
           else Finite (if x < 0 then - (of_int m * pow2 e) else of_int m * pow2 e))"

section \<open>Schema normalisation and validation\<close>

definition isspace :: "char \<Rightarrow> bool" where
  "isspace c = (c \<in> set [CHR '' '', CHR 0x09, CHR 0x0A, CHR 0x0B, CHR 0x0C, CHR 0x0D,
                         CHR 0x1C, CHR 0x1D, CHR 0x1E, CHR 0x1F])"

definition strip :: "string \<Rightarrow> string" where
  "strip s = rev (dropWhile isspace (rev (dropWhile isspace s)))"

definition lower_char :: "char \<Rightarrow> char" where
  "lower_char c =
     (case map_of (zip ''ABCDEFGHIJKLMNOPQRSTUVWXYZ'' ''abcdefghijklmnopqrstuvwxyz'') c of
        None \<Rightarrow> c
      | Some l \<Rightarrow> l)"

definition lower :: "string \<Rightarrow> string" where
  "lower s = map lower_char s"

text \<open>\<^verbatim>\<open>df.columns = df.columns.str.strip().str.lower()\<close>\<close>

definition normalize :: "dataframe \<Rightarrow> dataframe" where
  "normalize df = df\<lparr>cols := map (\<lambda>p. (lower (strip (fst p)), snd p)) (cols df)\<rparr>"

definition required_columns :: "string list" where
  "required_columns = [''timestamp'', ''log_level'', ''service'', ''message'', ''user_id'']"

text \<open>
  \<^verbatim>\<open>if not required_columns.issubset(df.columns): raise ValueError(f"... Found: {df.columns.tolist()}")\<close>
\<close>

definition validate :: "dataframe \<Rightarrow> error + dataframe" where
  "validate df =
     (if set required_columns \<subseteq> set (columns df) then Inr df
      else Inl (MissingRequiredColumns (columns df)))"

section \<open>Library functions taken as parameters\<close>

text \<open>
  The text conversions of pandas and Python that the program relies on and does not define.
  \<open>to_datetime_value now col c\<close> is what \<^verbatim>\<open>pd.to_datetime(col)\<close>, called at the time \<open>now\<close>,
  makes of the value \<open>c\<close> of the column \<open>col\<close>, \<open>c\<close> being present (\<open>None\<close>: the call raises on
  that value). The result depends on the column, since pandas may take the format of the
  first value for all of them, and on the time of the call, from which pandas takes the day
  of a text that holds a time of day only, and the meaning of \<^verbatim>\<open>now\<close> and \<^verbatim>\<open>today\<close>.
  \<open>parse_int64\<close> and \<open>parse_float64\<close> are the numeric converters of \<^verbatim>\<open>read_csv\<close>; \<open>py_int\<close> and
  \<open>py_float\<close> are Python's \<^verbatim>\<open>int(s)\<close> and \<^verbatim>\<open>float(s)\<close> on a string; \<open>py_repr\<close> is Python's \<^verbatim>\<open>str\<close>
  of a float, an instant or a date; \<open>csv_datetime\<close> is the text \<^verbatim>\<open>to_csv\<close> writes for an
  instant, which depends on the other values of its column.
\<close>

record pandas =
  to_datetime_value :: "instant \<Rightarrow> cell list \<Rightarrow> cell \<Rightarrow> instant option"
  parse_int64 :: "string \<Rightarrow> int option"
  parse_float64 :: "string \<Rightarrow> float64 option"
  py_int :: "string \<Rightarrow> int option"
  py_float :: "string \<Rightarrow> float64 option"
  py_repr :: "cell \<Rightarrow> string"
  csv_datetime :: "cell list \<Rightarrow> cell \<Rightarrow> string"

fun traverse :: "('a \<Rightarrow> error + 'b) \<Rightarrow> 'a list \<Rightarrow> error + 'b list" where
  "traverse f [] = Inr []"
| "traverse f (x # xs) =
     (case f x of
        Inl e \<Rightarrow> Inl e
      | Inr y \<Rightarrow> (case traverse f xs of Inl e \<Rightarrow> Inl e | Inr ys \<Rightarrow> Inr (y # ys)))"

definition parse_cell :: "pandas \<Rightarrow> instant \<Rightarrow> cell list \<Rightarrow> cell \<Rightarrow> error + cell" where
  "parse_cell L now col c =
     (if isna c then Inr NaT
      else (case to_datetime_value L now col c of
              None \<Rightarrow> Inl (DateParseError c)
            | Some t \<Rightarrow> Inr (TsV t)))"

text \<open>
  \<^verbatim>\<open>pd.to_datetime(column)\<close>, called at the time \<open>now\<close>: a missing value becomes NaT, and the
  call raises on the first value it cannot convert. \<open>Inr\<close> stands for a column of instants,
  on which the accessor \<^verbatim>\<open>.dt\<close> works; where pandas returns a column of another type (values
  with different offsets from UTC), the accessor raises in the next statement of the program,
  and the model raises here.
\<close>

definition to_datetime :: "pandas \<Rightarrow> instant \<Rightarrow> cell list \<Rightarrow> error + cell list" where
  "to_datetime L now col = traverse (parse_cell L now col) col"

section \<open>Feature engineering\<close>

text \<open>\<^verbatim>\<open>.dt.date\<close> on a parsed column.\<close>

definition dt_date :: "cell \<Rightarrow> cell" where
  "dt_date c = (case c of TsV t \<Rightarrow> DateV (on t) | _ \<Rightarrow> NaT)"

text \<open>
  A column of integers, some of them possibly missing: pandas holds it as int64 when every
  value is there, and as float64 with NaN otherwise, each integer as the float64 nearest
  to it.
\<close>

definition int_column :: "int option list \<Rightarrow> cell list" where
  "int_column xs =
     (if None \<in> set xs
      then map (\<lambda>x. case x of None \<Rightarrow> NaN | Some i \<Rightarrow> FloatV (float64_of (of_int i))) xs
      else map (\<lambda>x. case x of None \<Rightarrow> NaN | Some i \<Rightarrow> IntV i) xs)"

text \<open>\<^verbatim>\<open>.dt.hour\<close> on a parsed column.\<close>

definition dt_hour :: "cell list \<Rightarrow> cell list" where
  "dt_hour col = int_column (map (\<lambda>c. case c of TsV t \<Rightarrow> Some (int (hour t)) | _ \<Rightarrow> None) col)"

text \<open>\<^verbatim>\<open>(df["log_level"] == "ERROR").astype(int)\<close>, on one cell.\<close>

definition is_error :: "cell \<Rightarrow> cell" where
  "is_error c = (if c = StrV ''ERROR'' then IntV 1 else IntV 0)"

definition log_level_map :: "(string \<times> int) list" where
  "log_level_map = [(''INFO'', 0), (''WARN'', 1), (''ERROR'', 2)]"

text \<open>\<^verbatim>\<open>df["log_level"].map(log_level_map)\<close>: a value that is no key of the dictionary maps to NaN.\<close>

definition lookup_level :: "cell \<Rightarrow> int option" where
  "lookup_level c = (case c of StrV s \<Rightarrow> map_of log_level_map s | _ \<Rightarrow> None)"

definition log_level_encoded :: "cell list \<Rightarrow> cell list" where
  "log_level_encoded col = int_column (map lookup_level col)"

fun show_nat :: "nat \<Rightarrow> string" where
  "show_nat n =
     (if n < 10 then [''0123456789'' ! n] else show_nat (n div 10) @ [''0123456789'' ! (n mod 10)])"

declare show_nat.simps [simp del]

definition show_int :: "int \<Rightarrow> string" where
  "show_int i = (if i < 0 then CHR ''-'' # show_nat (nat (- i)) else show_nat (nat i))"

text \<open>\<^verbatim>\<open>.astype(str)\<close> on one cell: Python's \<^verbatim>\<open>str\<close> of the value; a missing value reads \<^verbatim>\<open>nan\<close>.\<close>

definition py_str :: "pandas \<Rightarrow> cell \<Rightarrow> string" where
  "py_str L c =
     (case c of
        NaN \<Rightarrow> ''nan''
      | NaT \<Rightarrow> ''NaT''
      | IntV i \<Rightarrow> show_int i
      | BoolV b \<Rightarrow> (if b then ''True'' else ''False'')
      | StrV s \<Rightarrow> s
      | _ \<Rightarrow> py_repr L c)"

text \<open>\<^verbatim>\<open>df["message"].astype(str).apply(len)\<close>, on one cell.\<close>

definition message_length :: "pandas \<Rightarrow> cell \<Rightarrow> cell" where
  "message_length L c = IntV (int (length (py_str L c)))"

definition num_of :: "cell \<Rightarrow> rat option" where
  "num_of c =
     (case c of
        IntV i \<Rightarrow> Some (of_int i)
      | BoolV b \<Rightarrow> Some (if b then 1 else 0)
      | FloatV (Finite r) \<Rightarrow> Some r
      | _ \<Rightarrow> None)"

text \<open>
  The mean of a numeric column, missing values skipped; NaN when nothing is left. pandas
  adds the values up in float64 and divides the sum by their number. The program takes the
  mean of \<open>is_error\<close>, a column of the integers 0 and 1: their sum is exact, and the mean is
  the float64 nearest to the quotient.
\<close>

definition mean :: "cell list \<Rightarrow> cell" where
  "mean vs =
     (let xs = List.map_filter num_of vs
      in if xs = [] then NaN else FloatV (float64_of (sum_list xs / of_nat (length xs))))"

text \<open>
  \<^verbatim>\<open>df.groupby("service")["is_error"].mean()\<close>: one entry for each key that is present
  (\<^verbatim>\<open>groupby\<close> drops the rows whose key is missing), holding the mean of the values of the
  rows with that key.
\<close>

definition groupby_mean :: "cell list \<Rightarrow> cell list \<Rightarrow> (cell \<times> cell) list" where
  "groupby_mean keys vals =
     map (\<lambda>k. (k, mean (map snd (filter (\<lambda>p. fst p = k) (zip keys vals)))))
       (remdups (filter (\<lambda>k. \<not> isna k) keys))"

text \<open>\<^verbatim>\<open>column.map(series)\<close>: a value that is no index entry of the series maps to NaN.\<close>

definition map_series :: "(cell \<times> cell) list \<Rightarrow> cell list \<Rightarrow> cell list" where
  "map_series m col = map (\<lambda>k. case map_of m k of None \<Rightarrow> NaN | Some v \<Rightarrow> v) col"

text \<open>
  The statements of the feature-engineering block, one definition for each line; \<open>now\<close> is
  the time at which the task runs.
\<close>

definition parse_timestamp :: "pandas \<Rightarrow> instant \<Rightarrow> dataframe \<Rightarrow> error + dataframe" where
  "parse_timestamp L now df =
     and_then (getcol df ''timestamp'') (\<lambda>raw.
     and_then (to_datetime L now raw) (\<lambda>ts.
     Inr (setcol df ''timestamp'' ts)))"

definition add_event_date :: "dataframe \<Rightarrow> error + dataframe" where
  "add_event_date df =
     and_then (getcol df ''timestamp'') (\<lambda>ts.
     Inr (setcol df ''event_date'' (map dt_date ts)))"

definition add_hour_of_day :: "dataframe \<Rightarrow> error + dataframe" where
  "add_hour_of_day df =
     and_then (getcol df ''timestamp'') (\<lambda>ts.
     Inr (setcol df ''hour_of_day'' (dt_hour ts)))"

definition add_is_error :: "dataframe \<Rightarrow> error + dataframe" where
  "add_is_error df =
     and_then (getcol df ''log_level'') (\<lambda>ll.
     Inr (setcol df ''is_error'' (map is_error ll)))"

definition add_log_level_encoded :: "dataframe \<Rightarrow> error + dataframe" where
  "add_log_level_encoded df =
     and_then (getcol df ''log_level'') (\<lambda>ll.
     Inr (setcol df ''log_level_encoded'' (log_level_encoded ll)))"

definition add_message_length :: "pandas \<Rightarrow> dataframe \<Rightarrow> error + dataframe" where
  "add_message_length L df =
     and_then (getcol df ''message'') (\<lambda>msg.
     Inr (setcol df ''message_length'' (map (message_length L) msg)))"

definition add_service_error_rate :: "dataframe \<Rightarrow> error + dataframe" where
  "add_service_error_rate df =
     and_then (getcol df ''service'') (\<lambda>keys.
     and_then (getcol df ''is_error'') (\<lambda>vals.
     let service_error_rate = groupby_mean keys vals in
     and_then (getcol df ''service'') (\<lambda>svc.
     Inr (setcol df ''service_error_rate'' (map_series service_error_rate svc)))))"

definition engineer :: "pandas \<Rightarrow> instant \<Rightarrow> dataframe \<Rightarrow> error + dataframe" where
  "engineer L now df =
     and_then (parse_timestamp L now df) (\<lambda>df.
     and_then (add_event_date df) (\<lambda>df.
     and_then (add_hour_of_day df) (\<lambda>df.
     and_then (add_is_error df) (\<lambda>df.
     and_then (add_log_level_encoded df) (\<lambda>df.
     and_then (add_message_length L df) (\<lambda>df.
     add_service_error_rate df))))))"

section \<open>The text hand-off\<close>

text \<open>
  Delimited text is modelled by its non-blank lines, each line by the list of its fields:
  the delimiter (a tab in the stored object, a comma between the tasks) and the quoting
  are the framing of the csv reader and writer and are taken to be lossless.
\<close>

type_synonym csv = "string list list"

text \<open>
  \<^verbatim>\<open>df.to_csv(index=False)\<close>: a header line, then one line for each row; a missing value is
  written as the empty field.
\<close>

definition to_csv_field :: "pandas \<Rightarrow> cell list \<Rightarrow> cell \<Rightarrow> string" where
  "to_csv_field L col c =
     (case c of
        NaN \<Rightarrow> []
      | NaT \<Rightarrow> []
      | TsV t \<Rightarrow> csv_datetime L col c
      | _ \<Rightarrow> py_str L c)"

definition to_csv :: "pandas \<Rightarrow> dataframe \<Rightarrow> csv" where
  "to_csv L df =
     columns df #
     map (\<lambda>i. map (\<lambda>p. to_csv_field L (snd p) (snd p ! i)) (cols df)) [0..<nrows df]"

text \<open>The strings \<^verbatim>\<open>read_csv\<close> reads as a missing value, and as a truth value.\<close>

definition na_values :: "string list" where
  "na_values = ['''', ''#N/A'', ''#N/A N/A'', ''#NA'', ''-1.#IND'', ''-1.#QNAN'', ''-NaN'',
     ''-nan'', ''1.#IND'', ''1.#QNAN'', ''<NA>'', ''N/A'', ''NA'', ''NULL'', ''NaN'', ''None'',
     ''n/a'', ''nan'', ''null'']"

definition true_values :: "string list" where
  "true_values = [''True'', ''TRUE'', ''true'']"

definition false_values :: "string list" where
  "false_values = [''False'', ''FALSE'', ''false'']"

text \<open>
  The type \<^verbatim>\<open>read_csv\<close> gives a column: int64 when every field is an integer, float64 when
  every field that is present is a number, truth values, and text otherwise.
\<close>

definition infer_column :: "pandas \<Rightarrow> string list \<Rightarrow> cell list" where
  "infer_column L fs =
     (let present = filter (\<lambda>f. f \<notin> set na_values) fs in
      if list_all (\<lambda>f. parse_int64 L f \<noteq> None) present
      then int_column (map (\<lambda>f. if f \<in> set na_values then None else parse_int64 L f) fs)
      else if list_all (\<lambda>f. parse_float64 L f \<noteq> None) present
      then map (\<lambda>f. if f \<in> set na_values then NaN
                     else (case parse_float64 L f of None \<Rightarrow> NaN | Some x \<Rightarrow> FloatV x)) fs
      else if list_all (\<lambda>f. f \<in> set true_values \<or> f \<in> set false_values) present
      then map (\<lambda>f. if f \<in> set na_values then NaN else BoolV (f \<in> set true_values)) fs
      else map (\<lambda>f. if f \<in> set na_values then NaN else StrV f) fs)"

text \<open>
  \<^verbatim>\<open>read_csv\<close> renames the labels of the header line that repeat: \<open>counts\<close> is its dictionary
  from a label to the number of times it was seen, and a label seen \<open>n\<close> times before
  is tried again as \<^verbatim>\<open>label.n\<close>. This is the scheme of \<^verbatim>\<open>dedup_names\<close> of pandas. The reader
  of the header line also passes over a name \<^verbatim>\<open>label.n\<close> that is another label of the header,
  and names the empty fields last; the two schemes agree on every header in which no label
  is a repeated label followed by a dot and a number, and no field is empty.
\<close>

type_synonym counts = "(string \<times> nat) list"

definition count_of :: "counts \<Rightarrow> string \<Rightarrow> nat" where
  "count_of counts k = (case map_of counts k of None \<Rightarrow> 0 | Some n \<Rightarrow> n)"

definition longest :: "counts \<Rightarrow> nat" where
  "longest counts = foldr (\<lambda>p m. max (length (fst p)) m) counts 0"

function mangle :: "counts \<Rightarrow> string \<Rightarrow> string \<times> counts" where
  "mangle counts col =
     (let cur_count = count_of counts col
      in if cur_count > 0
         then mangle ((col, cur_count + 1) # counts) (col @ ''.'' @ show_nat cur_count)
         else (col, (col, 1) # counts))"
  by pat_completeness auto
termination
proof (relation "measure (\<lambda>(counts, col). longest counts + 1 - length col)")
  show "wf (measure (\<lambda>(counts, col). longest counts + 1 - length col))" by simp
next
  fix counts :: counts and col :: string and x
  assume x: "x = count_of counts col" "0 < x"
  have "0 < count_of cs col \<Longrightarrow> length col \<le> longest cs" for cs
    by (induction cs) (auto simp: count_of_def longest_def split: if_splits)
  with x have "length col \<le> longest counts" by blast
  then show "(((col, x + 1) # counts, col @ ''.'' @ show_nat x), (counts, col))
      \<in> measure (\<lambda>(counts, col). longest counts + 1 - length col)"
    by (simp add: max_def longest_def)
qed

declare mangle.simps [simp del]

fun dedup_names :: "counts \<Rightarrow> string list \<Rightarrow> string list" where
  "dedup_names counts [] = []"
| "dedup_names counts (col # names) =
     (case mangle counts col of (col', counts') \<Rightarrow> col' # dedup_names counts' names)"

text \<open>An empty header field is read as \<^verbatim>\<open>Unnamed: j\<close>, \<open>j\<close> its position.\<close>

definition header_names :: "string list \<Rightarrow> string list" where
  "header_names h =
     dedup_names []
       (map (\<lambda>j. if h ! j = [] then ''Unnamed: '' @ show_nat j else h ! j) [0..<length h])"

text \<open>
  \<^verbatim>\<open>pd.read_csv\<close>: the first line is the header, every other line a row. Text with no line
  raises. The model reads the lines that have as many fields as the header; on any other
  line it raises, which pandas does for some such texts only.
\<close>

definition read_csv :: "pandas \<Rightarrow> csv \<Rightarrow> error + dataframe" where
  "read_csv L text =
     (case text of
        [] \<Rightarrow> Inl EmptyDataError
      | h # rows \<Rightarrow>
          if list_all (\<lambda>r. length r = length h) rows
          then Inr \<lparr>nrows = length rows,
                    cols = zip (header_names h)
                             (map (\<lambda>j. infer_column L (map (\<lambda>r. r ! j) rows)) [0..<length h])\<rparr>
          else Inl ParserError)"

section \<open>The transform task\<close>

text \<open>
  What the tasks read and write: the objects of the store (bucket, then object name), the
  values the tasks pass on (by task id), and the tables of the warehouse, each the list of
  the frames loaded into it. The tasks also read the clock, through \<^verbatim>\<open>pd.to_datetime\<close>:
  \<open>clock\<close> gives the time at which each task of the run is executed (by task id).
\<close>

record world =
  gcs :: "string \<Rightarrow> string \<Rightarrow> csv option"
  xcom :: "string \<Rightarrow> csv option"
  bigquery :: "string \<Rightarrow> dataframe list"
  clock :: "string \<Rightarrow> instant"

definition download :: "world \<Rightarrow> string \<Rightarrow> string \<Rightarrow> error + csv" where
  "download w bucket_name object_name =
     (case gcs w bucket_name object_name of None \<Rightarrow> Inl ObjectNotFound | Some text \<Rightarrow> Inr text)"

definition transform_logs :: "pandas \<Rightarrow> world \<Rightarrow> error + csv" where
  "transform_logs L w =
     (let bucket_name = ''ai-log-raw-data-215''; object_name = ''sample_logs.csv'';
          now = clock w ''transform_logs_feature_engineering'' in
      and_then (download w bucket_name object_name) (\<lambda>file_content.
      and_then (read_csv L file_content) (\<lambda>df.
      and_then (validate (normalize df)) (\<lambda>df.
      and_then (engineer L now df) (\<lambda>df.
      Inr (to_csv L df))))))"

section \<open>The load task\<close>

text \<open>
  The columns pandas holds as Python objects: those with text, and those with a truth value
  beside a missing value.
\<close>

definition is_object :: "cell list \<Rightarrow> bool" where
  "is_object col =
     (list_ex (\<lambda>c. case c of StrV s \<Rightarrow> True | _ \<Rightarrow> False) col \<or>
      list_ex (\<lambda>c. case c of BoolV b \<Rightarrow> True | _ \<Rightarrow> False) col \<and> list_ex isna col)"

text \<open>An integer read as int64: the value wraps around at \<open>2 ^ 63\<close>.\<close>

definition wrap_int64 :: "int \<Rightarrow> int" where
  "wrap_int64 i = (i + 2 ^ 63) mod 2 ^ 64 - 2 ^ 63"

definition trunc :: "rat \<Rightarrow> int" where
  "trunc r = (if r < 0 then \<lceil>r\<rceil> else \<lfloor>r\<rfloor>)"

text \<open>
  \<^verbatim>\<open>.astype("int64")\<close> on one cell; \<open>obj\<close> says that pandas holds the column as Python objects.
  An integer beyond the range of int64 wraps around, and a float is cut towards zero. A
  missing or an infinite value raises, and so does text that is no integer literal. What
  becomes of a finite float beyond the range of int64 is outside the model.
\<close>

definition cast_int64 :: "pandas \<Rightarrow> bool \<Rightarrow> cell \<Rightarrow> error + cell" where
  "cast_int64 L obj c =
     (case c of
        IntV i \<Rightarrow> Inr (IntV (wrap_int64 i))
      | BoolV b \<Rightarrow> Inr (IntV (if b then 1 else 0))
      | FloatV f \<Rightarrow> (case f of Finite r \<Rightarrow> Inr (IntV (trunc r)) | _ \<Rightarrow> Inl IntCastingNaNError)
      | NaN \<Rightarrow> Inl (if obj then NaNToInteger else IntCastingNaNError)
      | StrV s \<Rightarrow> (case py_int L s of None \<Rightarrow> Inl (InvalidLiteral s) | Some i \<Rightarrow> Inr (IntV i))
      | _ \<Rightarrow> Inl (CastTypeError c))"

text \<open>\<^verbatim>\<open>.astype("float64")\<close> on one cell; a missing value stays missing.\<close>

definition cast_float64 :: "pandas \<Rightarrow> cell \<Rightarrow> error + cell" where
  "cast_float64 L c =
     (case c of
        NaN \<Rightarrow> Inr NaN
      | IntV i \<Rightarrow> Inr (FloatV (float64_of (of_int i)))
      | BoolV b \<Rightarrow> Inr (FloatV (Finite (if b then 1 else 0)))
      | FloatV f \<Rightarrow> Inr (FloatV f)
      | StrV s \<Rightarrow> (case py_float L s of None \<Rightarrow> Inl (InvalidLiteral s) | Some f \<Rightarrow> Inr (FloatV f))
      | _ \<Rightarrow> Inl (CastTypeError c))"

text \<open>\<^verbatim>\<open>df[k] = df[k].astype("int64")\<close> and \<^verbatim>\<open>df[k] = df[k].astype("float64")\<close>\<close>

definition astype_int64 :: "pandas \<Rightarrow> string \<Rightarrow> dataframe \<Rightarrow> error + dataframe" where
  "astype_int64 L k df =
     and_then (getcol df k) (\<lambda>col.
     and_then (traverse (cast_int64 L (is_object col)) col) (\<lambda>v.
     Inr (setcol df k v)))"

definition astype_float64 :: "pandas \<Rightarrow> string \<Rightarrow> dataframe \<Rightarrow> error + dataframe" where
  "astype_float64 L k df =
     and_then (getcol df k) (\<lambda>col.
     and_then (traverse (cast_float64 L) col) (\<lambda>v.
     Inr (setcol df k v)))"

text \<open>\<^verbatim>\<open>df["timestamp"] = pd.to_datetime(df["timestamp"])\<close>\<close>

definition fix_timestamp :: "pandas \<Rightarrow> instant \<Rightarrow> dataframe \<Rightarrow> error + dataframe" where
  "fix_timestamp L now df =
     and_then (getcol df ''timestamp'') (\<lambda>col.
     and_then (to_datetime L now col) (\<lambda>v.
     Inr (setcol df ''timestamp'' v)))"

text \<open>\<^verbatim>\<open>df["event_date"] = pd.to_datetime(df["event_date"]).dt.date\<close>\<close>

definition fix_event_date :: "pandas \<Rightarrow> instant \<Rightarrow> dataframe \<Rightarrow> error + dataframe" where
  "fix_event_date L now df =
     and_then (getcol df ''event_date'') (\<lambda>col.
     and_then (to_datetime L now col) (\<lambda>v.
     Inr (setcol df ''event_date'' (map dt_date v))))"

text \<open>
  The block \<^verbatim>\<open>FIX DATA TYPES\<close> of \<^verbatim>\<open>load_to_bigquery\<close>, in the order of the source; \<open>now\<close> is
  the time at which the task runs.
\<close>

definition coerce :: "pandas \<Rightarrow> instant \<Rightarrow> dataframe \<Rightarrow> error + dataframe" where
  "coerce L now df =
     and_then (fix_timestamp L now df) (\<lambda>df.
     and_then (fix_event_date L now df) (\<lambda>df.
     and_then (astype_int64 L ''hour_of_day'' df) (\<lambda>df.
     and_then (astype_int64 L ''log_level_encoded'' df) (\<lambda>df.
     and_then (astype_int64 L ''message_length'' df) (\<lambda>df.
     and_then (astype_int64 L ''is_error'' df) (\<lambda>df.
     and_then (astype_float64 L ''service_error_rate'' df) (\<lambda>df.
     astype_int64 L ''user_id'' df)))))))"

text \<open>\<^verbatim>\<open>client.load_table_from_dataframe(df, table_ref)\<close>: the frame is appended to the table.\<close>

definition load_table_from_dataframe :: "dataframe \<Rightarrow> string \<Rightarrow> world \<Rightarrow> world" where
  "load_table_from_dataframe df table_ref w =
     w\<lparr>bigquery := (bigquery w)(table_ref := bigquery w table_ref @ [df])\<rparr>"

definition load_to_bigquery :: "pandas \<Rightarrow> world \<Rightarrow> error + world" where
  "load_to_bigquery L w =
     (case xcom w ''transform_logs_feature_engineering'' of
        None \<Rightarrow> Inl NoTransformedData
      | Some csv_data \<Rightarrow>
          if csv_data = [] then Inl NoTransformedData
          else
            and_then (read_csv L csv_data) (\<lambda>df.
            and_then (coerce L (clock w ''load_to_bigquery'') df) (\<lambda>df.
            Inr (load_table_from_dataframe df
                   ''ai-ready-etl-pipeline.log_analytics.ai_log_features'' w))))"

section \<open>The run\<close>

text \<open>
  \<^verbatim>\<open>list_gcs_logs >> log_files >> transform_task >> load_bq_task\<close>: the first two tasks list
  and print object names. The value a task returns is passed on under its task id, and a
  task runs only when the task before it has succeeded. One attempt of each task of a run
  is modelled.
\<close>

definition dag_run :: "pandas \<Rightarrow> world \<Rightarrow> error option \<times> world" where
  "dag_run L w =
     (case transform_logs L w of
        Inl e \<Rightarrow> (Some e, w)
      | Inr csv_data \<Rightarrow>
          (let w1 = w\<lparr>xcom := (xcom w)(''transform_logs_feature_engineering'' \<mapsto> csv_data)\<rparr>
           in case load_to_bigquery L w1 of
                Inl e \<Rightarrow> (Some e, w1)
              | Inr w2 \<Rightarrow> (None, w2)))"

section \<open>A small instance of the library, and sample data\<close>

text \<open>
  The theorems below hold for every choice of the library functions. To run the model on
  concrete input, this instance reads decimal integers and knows a few instants and
  floats by their text. As pandas does, it gives a text that holds a time of day only the
  day of the call.
\<close>

definition digit_value :: "char \<Rightarrow> nat option" where
  "digit_value c = map_of (zip ''0123456789'' [0 ..< 10]) c"

fun read_nat :: "nat \<Rightarrow> string \<Rightarrow> nat option" where
  "read_nat acc [] = Some acc"
| "read_nat acc (c # cs) =
     (case digit_value c of None \<Rightarrow> None | Some d \<Rightarrow> read_nat (10 * acc + d) cs)"

definition read_int :: "string \<Rightarrow> int option" where
  "read_int s =
     (case s of
        [] \<Rightarrow> None
      | c # cs \<Rightarrow>
          if c = CHR ''-'' then (if cs = [] then None else map_option (\<lambda>n. - int n) (read_nat 0 cs))
          else map_option int (read_nat 0 s))"

definition demo_instants :: "(string \<times> instant) list" where
  "demo_instants =
     [(''2024-01-01 10:00:00'', Instant (Date 2024 1 1) 10 0 0),
      (''2024-01-01 11:30:00'', Instant (Date 2024 1 1) 11 30 0),
      (''2024-01-02 23:59:59'', Instant (Date 2024 1 2) 23 59 59),
      (''2024-01-01'', Instant (Date 2024 1 1) 0 0 0),
      (''2024-01-02'', Instant (Date 2024 1 2) 0 0 0),
      (''2024-03-04 10:30:00'', Instant (Date 2024 3 4) 10 30 0),
      (''2024-03-05 10:30:00'', Instant (Date 2024 3 5) 10 30 0),
      (''2024-03-04'', Instant (Date 2024 3 4) 0 0 0),
      (''2024-03-05'', Instant (Date 2024 3 5) 0 0 0)]"

definition demo_times :: "(string \<times> nat \<times> nat \<times> nat) list" where
  "demo_times = [(''10:30:00'', (10, 30, 0))]"

definition demo_to_datetime :: "instant \<Rightarrow> cell list \<Rightarrow> cell \<Rightarrow> instant option" where
  "demo_to_datetime now col c =
     (case c of
        StrV s \<Rightarrow>
          (case map_of demo_instants s of
             Some t \<Rightarrow> Some t
           | None \<Rightarrow>
               (case map_of demo_times s of
                  None \<Rightarrow> None
                | Some (h, m, sec) \<Rightarrow> Some (Instant (on now) h m sec)))
      | TsV t \<Rightarrow> Some t
      | _ \<Rightarrow> None)"

definition demo_floats :: "(string \<times> float64) list" where
  "demo_floats =
     [(''0.0'', Finite 0), (''0.5'', Finite (1 / 2)), (''1.0'', Finite 1), (''2.0'', Finite 2)]"

definition demo_text :: "cell \<Rightarrow> string" where
  "demo_text c =
     (case c of
        FloatV f \<Rightarrow> (case find (\<lambda>p. snd p = f) demo_floats of None \<Rightarrow> ''?'' | Some p \<Rightarrow> fst p)
      | TsV t \<Rightarrow> (case find (\<lambda>p. snd p = t) demo_instants of None \<Rightarrow> ''?'' | Some p \<Rightarrow> fst p)
      | DateV d \<Rightarrow>
          (case find (\<lambda>p. snd p = Instant d 0 0 0) demo_instants of
             None \<Rightarrow> ''?''
           | Some p \<Rightarrow> fst p)
      | _ \<Rightarrow> ''?'')"

definition demo_pandas :: pandas where
  "demo_pandas =
     \<lparr>to_datetime_value = demo_to_datetime,
      parse_int64 = read_int,
      parse_float64 = map_of demo_floats,
      py_int = read_int,
      py_float = map_of demo_floats,
      py_repr = demo_text,
      csv_datetime = (\<lambda>col. demo_text)\<rparr>"

text \<open>
  The stored object of the scenario of the specification, with its header in mixed case
  and padded, and the batch read from it after normalisation.
\<close>

definition demo_object :: csv where
  "demo_object =
     [[''Timestamp'', '' Log_Level '', ''service'', ''message'', ''user_id''],
      [''2024-01-01 10:00:00'', ''INFO'', ''svc-a'', ''hello'', ''1''],
      [''2024-01-01 11:30:00'', ''ERROR'', ''svc-a'', ''oops'', ''2''],
      [''2024-01-02 23:59:59'', ''ERROR'', ''svc-b'', ''bad'', ''3'']]"

definition demo_batch :: dataframe where
  "demo_batch =
     \<lparr>nrows = 3,
      cols =
        [(''timestamp'',
          [StrV ''2024-01-01 10:00:00'', StrV ''2024-01-01 11:30:00'',
           StrV ''2024-01-02 23:59:59'']),
         (''log_level'', [StrV ''INFO'', StrV ''ERROR'', StrV ''ERROR'']),
         (''service'', [StrV ''svc-a'', StrV ''svc-a'', StrV ''svc-b'']),
         (''message'', [StrV ''hello'', StrV ''oops'', StrV ''bad'']),
         (''user_id'', [IntV 1, IntV 2, IntV 3])]\<rparr>"

definition demo_enriched :: dataframe where
  "demo_enriched =
     \<lparr>nrows = 3,
      cols =
        [(''timestamp'',
          [TsV (Instant (Date 2024 1 1) 10 0 0), TsV (Instant (Date 2024 1 1) 11 30 0),
           TsV (Instant (Date 2024 1 2) 23 59 59)]),
         (''log_level'', [StrV ''INFO'', StrV ''ERROR'', StrV ''ERROR'']),
         (''service'', [StrV ''svc-a'', StrV ''svc-a'', StrV ''svc-b'']),
         (''message'', [StrV ''hello'', StrV ''oops'', StrV ''bad'']),
         (''user_id'', [IntV 1, IntV 2, IntV 3]),
         (''event_date'', [DateV (Date 2024 1 1), DateV (Date 2024 1 1), DateV (Date 2024 1 2)]),
         (''hour_of_day'', [IntV 10, IntV 11, IntV 23]),
         (''is_error'', [IntV 0, IntV 1, IntV 1]),
         (''log_level_encoded'', [IntV 0, IntV 2, IntV 2]),
         (''message_length'', [IntV 5, IntV 4, IntV 3]),
         (''service_error_rate'',
          [FloatV (Finite (1 / 2)), FloatV (Finite (1 / 2)), FloatV (Finite 1)])]\<rparr>"

text \<open>A run of which every task is executed on 4 March 2024 at six o'clock.\<close>

definition demo_now :: instant where
  "demo_now = Instant (Date 2024 3 4) 6 0 0"

definition demo_clock :: "string \<Rightarrow> instant" where
  "demo_clock task_id = demo_now"

definition demo_world :: world where
  "demo_world =
     \<lparr>gcs = (\<lambda>bucket_name object_name.
               if bucket_name = ''ai-log-raw-data-215'' \<and> object_name = ''sample_logs.csv''
               then Some demo_object else None),
      xcom = (\<lambda>task_id. None),
      bigquery = (\<lambda>table_ref. []),
      clock = demo_clock\<rparr>"

section \<open>Notions used to state the properties\<close>

text \<open>A well-formed table: every column has one cell for each row.\<close>

definition wf :: "dataframe \<Rightarrow> bool" where
  "wf df = list_all (\<lambda>p. length (snd p) = nrows df) (cols df)"

text \<open>
  Stated from the specification: the error ratio of a service in a batch is the number of
  its rows whose level is \<^verbatim>\<open>ERROR\<close> over the number of its rows; \<open>svc\<close> and \<open>ll\<close> are the
  service and the level of each row.
\<close>

definition batch_error_ratio :: "cell list \<Rightarrow> cell list \<Rightarrow> cell \<Rightarrow> rat" where
  "batch_error_ratio svc ll s =
     of_nat (length (filter (\<lambda>p. fst p = s \<and> snd p = StrV ''ERROR'') (zip svc ll))) /
     of_nat (length (filter (\<lambda>p. fst p = s) (zip svc ll)))"

text \<open>The labels that feature engineering assigns besides \<open>timestamp\<close>, in its order.\<close>

definition derived_columns :: "string list" where
  "derived_columns =
     [''event_date'', ''hour_of_day'', ''is_error'', ''log_level_encoded'', ''message_length'',
      ''service_error_rate'']"

text \<open>
  Stated from the specification: the label \<open>l\<close> spells the required label \<open>r\<close> in some mix
  of case, with white space around it.
\<close>

definition spelling_of :: "string \<Rightarrow> string \<Rightarrow> bool" where
  "spelling_of r l =
     (\<exists>pre body post. l = pre @ body @ post \<and> list_all isspace pre \<and> list_all isspace post \<and>
        lower body = r)"

text \<open>The columns that \<^verbatim>\<open>load_to_bigquery\<close> converts with \<^verbatim>\<open>astype("int64")\<close>.\<close>

definition int64_columns :: "string list" where
  "int64_columns =
     [''hour_of_day'', ''log_level_encoded'', ''message_length'', ''is_error'', ''user_id'']"

text \<open>
  A cell of a column labelled \<open>k\<close> that the conversion of that column, at the time \<open>now\<close>,
  raises on: a value that is present and that \<^verbatim>\<open>pd.to_datetime\<close> raises on, in the two date
  columns; a value \<^verbatim>\<open>astype("int64")\<close> raises on, in the five integer columns; a value
  \<^verbatim>\<open>astype("float64")\<close> raises on, in the rate column. No cell of another column is
  converted.
\<close>

definition uncoercible :: "pandas \<Rightarrow> instant \<Rightarrow> string \<Rightarrow> cell list \<Rightarrow> cell \<Rightarrow> bool" where
  "uncoercible L now k col c =
     (if k = ''timestamp'' \<or> k = ''event_date''
      then \<not> isna c \<and> to_datetime_value L now col c = None
      else if k \<in> set int64_columns
      then (case cast_int64 L (is_object col) c of Inl e \<Rightarrow> True | Inr v \<Rightarrow> False)
      else if k = ''service_error_rate''
      then (case cast_float64 L c of Inl e \<Rightarrow> True | Inr v \<Rightarrow> False)
      else False)"

section \<open>Further sample data\<close>

text \<open>A batch with a level that the dictionary does not know.\<close>

definition demo_unknown_level :: dataframe where
  "demo_unknown_level =
     \<lparr>nrows = 2,
      cols =
        [(''timestamp'', [StrV ''2024-01-01 10:00:00'', StrV ''2024-01-01 11:30:00'']),
         (''log_level'', [StrV ''WARN'', StrV ''DEBUG'']),
         (''service'', [StrV ''svc-a'', StrV ''svc-a'']),
         (''message'', [StrV ''hello'', StrV ''oops'']),
         (''user_id'', [IntV 1, IntV 2])]\<rparr>"

text \<open>A table with no rows, its labels in mixed case and padded.\<close>

definition demo_headers :: dataframe where
  "demo_headers =
     \<lparr>nrows = 0,
      cols = [(''Timestamp'', []), ('' Log_Level '', []), (''service'', []), (''message'', []),
              (''USER_ID  '', [])]\<rparr>"

text \<open>A stored object without the column \<open>user_id\<close>, and a world that holds it.\<close>

definition demo_object_no_user :: csv where
  "demo_object_no_user =
     [[''Timestamp'', ''log_level'', ''service'', ''message''],
      [''2024-01-01 10:00:00'', ''INFO'', ''svc-a'', ''hello'']]"

definition demo_world_no_user :: world where
  "demo_world_no_user =
     \<lparr>gcs = (\<lambda>bucket_name object_name. Some demo_object_no_user),
      xcom = (\<lambda>task_id. None),
      bigquery = (\<lambda>table_ref. []),
      clock = demo_clock\<rparr>"

text \<open>
  The world of the scenario after other runs, a day later: the same object under the name
  the transform reads, other objects beside it, a value passed on and a table loaded.
\<close>

definition demo_world_later :: world where
  "demo_world_later =
     \<lparr>gcs = (\<lambda>bucket_name object_name.
               if bucket_name = ''ai-log-raw-data-215'' \<and> object_name = ''sample_logs.csv''
               then Some demo_object else Some demo_object_no_user),
      xcom = (\<lambda>task_id. Some demo_object_no_user),
      bigquery = (\<lambda>table_ref. [demo_enriched]),
      clock = (\<lambda>task_id. Instant (Date 2024 3 5) 6 0 0)\<rparr>"

text \<open>A stored object whose first row has an empty service field.\<close>

definition demo_object_blank_service :: csv where
  "demo_object_blank_service =
     [[''timestamp'', ''log_level'', ''service'', ''message'', ''user_id''],
      [''2024-01-01 10:00:00'', ''ERROR'', '''', ''oops'', ''1''],
      [''2024-01-01 11:30:00'', ''INFO'', ''svc-a'', ''hello'', ''2'']]"

text \<open>The batch of the scenario with one more column, labelled \<open>is_error\<close>.\<close>

definition demo_flagged :: dataframe where
  "demo_flagged =
     \<lparr>nrows = 3,
      cols =
        [(''timestamp'',
          [StrV ''2024-01-01 10:00:00'', StrV ''2024-01-01 11:30:00'',
           StrV ''2024-01-02 23:59:59'']),
         (''log_level'', [StrV ''INFO'', StrV ''ERROR'', StrV ''ERROR'']),
         (''service'', [StrV ''svc-a'', StrV ''svc-a'', StrV ''svc-b'']),
         (''message'', [StrV ''hello'', StrV ''oops'', StrV ''bad'']),
         (''user_id'', [IntV 1, IntV 2, IntV 3]),
         (''is_error'', [IntV 7, IntV 7, IntV 7])]\<rparr>"




text \<open>A stored object with the level \<^verbatim>\<open>DEBUG\<close> in its first row, and a world that holds it.\<close>

definition demo_object_debug :: csv where
  "demo_object_debug =
     [[''timestamp'', ''log_level'', ''service'', ''message'', ''user_id''],
      [''2024-01-01 10:00:00'', ''DEBUG'', ''svc-a'', ''hello'', ''1''],
      [''2024-01-01 11:30:00'', ''ERROR'', ''svc-a'', ''oops'', ''2'']]"

definition demo_world_debug :: world where
  "demo_world_debug =
     \<lparr>gcs = (\<lambda>bucket_name object_name. Some demo_object_debug),
      xcom = (\<lambda>task_id. None),
      bigquery = (\<lambda>table_ref. []),
      clock = demo_clock\<rparr>"

text \<open>
  A stored object whose timestamp holds a time of day only, and two worlds that hold it:
  in the first the tasks are executed on 4 March 2024, in the second a day later.
\<close>

definition demo_object_time_only :: csv where
  "demo_object_time_only =
     [[''timestamp'', ''log_level'', ''service'', ''message'', ''user_id''],
      [''10:30:00'', ''INFO'', ''svc-a'', ''hello'', ''1'']]"

definition demo_world_time_only :: world where
  "demo_world_time_only =
     \<lparr>gcs = (\<lambda>bucket_name object_name. Some demo_object_time_only),
      xcom = (\<lambda>task_id. None),
      bigquery = (\<lambda>table_ref. []),
      clock = demo_clock\<rparr>"

definition demo_world_time_only_later :: world where
  "demo_world_time_only_later =
     \<lparr>gcs = (\<lambda>bucket_name object_name. Some demo_object_time_only),
      xcom = (\<lambda>task_id. None),
      bigquery = (\<lambda>table_ref. []),
      clock = (\<lambda>task_id. Instant (Date 2024 3 5) 6 0 0)\<rparr>"

section \<open>Basic facts\<close>

lemma and_then_Inr: "and_then r f = Inr y \<longleftrightarrow> (\<exists>x. r = Inr x \<and> f x = Inr y)"
  by (cases r) (auto simp: and_then_def)

lemma and_then_simps [simp]: "and_then (Inr x) f = f x" "and_then (Inl e) f = Inl e"
  by (simp_all add: and_then_def)

lemma filter_fst_map_other:
  "k \<noteq> k' \<Longrightarrow>
   filter (\<lambda>p. fst p = k') (map (\<lambda>p. if fst p = k then (k, v) else p) xs) =
   filter (\<lambda>p. fst p = k') xs"
  by (induction xs) auto

lemma filter_fst_map_same:
  "filter (\<lambda>p. fst p = k) (map (\<lambda>p. if fst p = k then (k, v) else p) xs) =
   map (\<lambda>p. (k, v)) (filter (\<lambda>p. fst p = k) xs)"
  by (induction xs) auto

lemma filter_fst_absent: "k \<notin> fst ` set xs \<Longrightarrow> filter (\<lambda>p. fst p = k) xs = []"
  by (induction xs) auto

lemma getcol_setcol_other: "k \<noteq> k' \<Longrightarrow> getcol (setcol df k v) k' = getcol df k'"
  by (simp add: getcol_def setcol_def filter_fst_map_other)

lemma getcol_setcol_same: "getcol (setcol df k v) k = Inr w \<Longrightarrow> w = v"
  by (auto simp: getcol_def setcol_def columns_def filter_fst_map_same filter_fst_absent
      split: if_splits list.splits)

lemma columns_setcol:
  "columns (setcol df k v) = (if k \<in> set (columns df) then columns df else columns df @ [k])"
  by (auto simp: setcol_def columns_def comp_def intro!: map_idI)

lemma nrows_setcol [simp]: "nrows (setcol df k v) = nrows df"
  by (simp add: setcol_def)

lemma labelled_setcol_same: "(k, c) \<in> set (cols (setcol df k v)) \<Longrightarrow> c = v"
  by (force simp: setcol_def columns_def split: if_splits)

lemma labelled_setcol_other:
  "k \<noteq> k' \<Longrightarrow> (k', c) \<in> set (cols (setcol df k v)) \<longleftrightarrow> (k', c) \<in> set (cols df)"
  by (auto simp: setcol_def columns_def split: if_splits)

lemma labelled_setcol_present: "(k, v) \<in> set (cols (setcol df k v))"
  by (force simp: setcol_def columns_def)

lemma getcol_labelled: "getcol df k = Inr v \<Longrightarrow> (k, v) \<in> set (cols df)"
proof -
  assume a: "getcol df k = Inr v"
  then obtain p where p: "filter (\<lambda>p. fst p = k) (cols df) = [p]" "snd p = v"
    by (auto simp: getcol_def split: list.splits)
  then have "p \<in> set (filter (\<lambda>p. fst p = k) (cols df))" by simp
  then have "p \<in> set (cols df)" "fst p = k" by auto
  with p show ?thesis by (cases p) auto
qed

lemma engineer_stages:
  assumes "engineer L now df = Inr out"
  shows "\<exists>raw ts ll msg svc.
    getcol df ''timestamp'' = Inr raw \<and> to_datetime L now raw = Inr ts \<and>
    getcol df ''log_level'' = Inr ll \<and> getcol df ''message'' = Inr msg \<and>
    getcol df ''service'' = Inr svc \<and>
    out = setcol (setcol (setcol (setcol (setcol (setcol (setcol df
            ''timestamp'' ts)
            ''event_date'' (map dt_date ts))
            ''hour_of_day'' (dt_hour ts))
            ''is_error'' (map is_error ll))
            ''log_level_encoded'' (log_level_encoded ll))
            ''message_length'' (map (message_length L) msg))
            ''service_error_rate'' (map_series (groupby_mean svc (map is_error ll)) svc) \<and>
    getcol out ''is_error'' = Inr (map is_error ll)"
proof -
  from assms obtain d1 d2 d3 d4 d5 d6 where
    s1: "parse_timestamp L now df = Inr d1" and s2: "add_event_date d1 = Inr d2" and
    s3: "add_hour_of_day d2 = Inr d3" and s4: "add_is_error d3 = Inr d4" and
    s5: "add_log_level_encoded d4 = Inr d5" and s6: "add_message_length L d5 = Inr d6" and
    s7: "add_service_error_rate d6 = Inr out"
    unfolding engineer_def and_then_Inr by blast
  from s1 obtain raw ts where raw: "getcol df ''timestamp'' = Inr raw"
    and ts: "to_datetime L now raw = Inr ts" and d1: "d1 = setcol df ''timestamp'' ts"
    unfolding parse_timestamp_def and_then_Inr by auto
  from s2 obtain ts1 where "getcol d1 ''timestamp'' = Inr ts1"
    and d2: "d2 = setcol d1 ''event_date'' (map dt_date ts1)"
    unfolding add_event_date_def and_then_Inr by auto
  then have ts1: "ts1 = ts" using d1 getcol_setcol_same by blast
  from s3 obtain ts2 where "getcol d2 ''timestamp'' = Inr ts2"
    and d3: "d3 = setcol d2 ''hour_of_day'' (dt_hour ts2)"
    unfolding add_hour_of_day_def and_then_Inr by auto
  then have ts2: "ts2 = ts" using d1 d2 getcol_setcol_same[of df "''timestamp''" ts ts2]
    by (simp add: getcol_setcol_other)
  from s4 obtain ll where ll3: "getcol d3 ''log_level'' = Inr ll"
    and d4: "d4 = setcol d3 ''is_error'' (map is_error ll)"
    unfolding add_is_error_def and_then_Inr by auto
  have ll: "getcol df ''log_level'' = Inr ll"
    using ll3 d3 d2 d1 by (simp add: getcol_setcol_other)
  from s5 obtain ll' where ll4: "getcol d4 ''log_level'' = Inr ll'"
    and d5: "d5 = setcol d4 ''log_level_encoded'' (log_level_encoded ll')"
    unfolding add_log_level_encoded_def and_then_Inr by auto
  have ll': "ll' = ll" using ll4 d4 ll3 by (simp add: getcol_setcol_other)
  from s6 obtain msg where m5: "getcol d5 ''message'' = Inr msg"
    and d6: "d6 = setcol d5 ''message_length'' (map (message_length L) msg)"
    unfolding add_message_length_def and_then_Inr by auto
  have msg: "getcol df ''message'' = Inr msg"
    using m5 d5 d4 d3 d2 d1 by (simp add: getcol_setcol_other)
  from s7 obtain keys vals svc where k6: "getcol d6 ''service'' = Inr keys"
    and v6: "getcol d6 ''is_error'' = Inr vals" and sv6: "getcol d6 ''service'' = Inr svc"
    and out: "out = setcol d6 ''service_error_rate'' (map_series (groupby_mean keys vals) svc)"
    unfolding add_service_error_rate_def and_then_Inr Let_def by auto
  have keys: "keys = svc" using k6 sv6 by simp
  have svc: "getcol df ''service'' = Inr svc"
    using sv6 d6 d5 d4 d3 d2 d1 by (simp add: getcol_setcol_other)
  have "getcol d4 ''is_error'' = Inr vals"
    using v6 d6 d5 by (simp add: getcol_setcol_other)
  then have vals: "vals = map is_error ll" using d4 getcol_setcol_same by blast
  have "getcol out ''is_error'' = Inr (map is_error ll)"
    using v6 out vals by (simp add: getcol_setcol_other)
  then show ?thesis
    using raw ts ll msg svc out d6 d5 d4 d3 d2 d1 ts1 ts2 ll' keys vals by simp
qed

lemma demo_engineer: "engineer demo_pandas demo_now demo_batch = Inr demo_enriched"
  by code_simp

lemma float64_of_small:
  "float64_of 0 = Finite 0" "float64_of 1 = Finite 1" "float64_of 2 = Finite 2"
  "float64_of (1 / 2) = Finite (1 / 2)"
  by code_simp+

lemma float64_of_third: "float64_of (1 / 3) = Finite (6004799503160661 / 2 ^ 54)"
  by code_simp

section \<open>The error flag\<close>

text \<open>
  C2. When feature engineering returns, the column \<open>is_error\<close> of its result is, row by
  row, the flag of the column \<open>log_level\<close> of its input; the flag of a cell is 0 or 1, and
  it is 1 exactly when the cell is the text \<^verbatim>\<open>ERROR\<close>, so that \<^verbatim>\<open>error\<close>, \<^verbatim>\<open>Error\<close> and a
  missing level give 0.
\<close>

theorem is_error_exact:
  assumes "engineer L now df = Inr out"
  shows "\<exists>ll. getcol df ''log_level'' = Inr ll \<and>
           getcol out ''is_error'' = Inr (map is_error ll) \<and>
           (\<forall>c. (is_error c = IntV 0 \<or> is_error c = IntV 1) \<and>
                (is_error c = IntV 1 \<longleftrightarrow> c = StrV ''ERROR'')) \<and>
           is_error (StrV ''error'') = IntV 0 \<and> is_error (StrV ''Error'') = IntV 0 \<and>
           is_error NaN = IntV 0"
proof -
  from engineer_stages[OF assms] obtain ll where
    "getcol df ''log_level'' = Inr ll" "getcol out ''is_error'' = Inr (map is_error ll)"
    by blast
  then show ?thesis by (auto simp: is_error_def)
qed

theorem is_error_exact_witness:
  "engineer demo_pandas demo_now demo_batch = Inr demo_enriched \<and>
   getcol demo_batch ''log_level'' = Inr [StrV ''INFO'', StrV ''ERROR'', StrV ''ERROR''] \<and>
   getcol demo_enriched ''is_error'' = Inr [IntV 0, IntV 1, IntV 1]"
proof -
  from is_error_exact[OF demo_engineer] obtain ll where
    a: "getcol demo_batch ''log_level'' = Inr ll" and
    b: "getcol demo_enriched ''is_error'' = Inr (map is_error ll)" by blast
  have c: "getcol demo_batch ''log_level'' = Inr [StrV ''INFO'', StrV ''ERROR'', StrV ''ERROR'']"
    by (simp add: getcol_def demo_batch_def)
  with a have "ll = [StrV ''INFO'', StrV ''ERROR'', StrV ''ERROR'']" by simp
  with b have "getcol demo_enriched ''is_error'' = Inr [IntV 0, IntV 1, IntV 1]"
    by (simp add: is_error_def)
  with c demo_engineer show ?thesis by simp
qed

section \<open>The level encoding\<close>

lemma length_int_column [simp]: "length (int_column xs) = length xs"
  by (simp add: int_column_def)

lemma int_column_nth_None: "i < length xs \<Longrightarrow> xs ! i = None \<Longrightarrow> int_column xs ! i = NaN"
  by (auto simp: int_column_def)

lemma int_column_nth_Some:
  "i < length xs \<Longrightarrow> xs ! i = Some n \<Longrightarrow> float64_of (of_int n) = Finite (of_int n) \<Longrightarrow>
   num_of (int_column xs ! i) = Some (of_int n)"
  by (auto simp: int_column_def num_of_def)

lemma lookup_level_simps:
  "lookup_level (StrV ''INFO'') = Some 0"
  "lookup_level (StrV ''WARN'') = Some 1"
  "lookup_level (StrV ''ERROR'') = Some 2"
  by (simp_all add: lookup_level_def log_level_map_def)

lemma lookup_level_Some:
  "lookup_level c = Some n \<Longrightarrow> c \<in> {StrV ''INFO'', StrV ''WARN'', StrV ''ERROR''}"
  by (cases c) (auto simp: lookup_level_def log_level_map_def split: if_splits)

lemma lookup_level_other:
  "c \<notin> {StrV ''INFO'', StrV ''WARN'', StrV ''ERROR''} \<Longrightarrow> lookup_level c = None"
  using lookup_level_Some[of c] by (cases "lookup_level c") blast+

lemma log_level_encoded_rows:
  assumes "i < length ll"
  shows "(ll ! i = StrV ''INFO'' \<longrightarrow> num_of (log_level_encoded ll ! i) = Some 0) \<and>
         (ll ! i = StrV ''WARN'' \<longrightarrow> num_of (log_level_encoded ll ! i) = Some 1) \<and>
         (ll ! i = StrV ''ERROR'' \<longrightarrow> num_of (log_level_encoded ll ! i) = Some 2) \<and>
         (ll ! i \<notin> {StrV ''INFO'', StrV ''WARN'', StrV ''ERROR''} \<longrightarrow>
            log_level_encoded ll ! i = NaN)"
proof -
  from assms have i: "i < length (map lookup_level ll)" by simp
  have nth: "map lookup_level ll ! i = lookup_level (ll ! i)" using assms by simp
  have a: "num_of (log_level_encoded ll ! i) = Some (of_int n)"
    if "lookup_level (ll ! i) = Some n" "float64_of (of_int n) = Finite (of_int n)" for n
    unfolding log_level_encoded_def using int_column_nth_Some[OF i] nth that by simp
  have f: "float64_of (of_int 0) = Finite (of_int 0)" "float64_of (of_int 1) = Finite (of_int 1)"
    "float64_of (of_int 2) = Finite (of_int 2)"
    by (simp_all add: float64_of_small)
  have b: "log_level_encoded ll ! i = NaN" if "lookup_level (ll ! i) = None"
    unfolding log_level_encoded_def using int_column_nth_None[OF i] nth that by simp
  show ?thesis
  proof (intro conjI impI)
    assume "ll ! i = StrV ''INFO''"
    then have "lookup_level (ll ! i) = Some 0" by (simp only: lookup_level_simps)
    from a[OF this f(1)] show "num_of (log_level_encoded ll ! i) = Some 0" by simp
  next
    assume "ll ! i = StrV ''WARN''"
    then have "lookup_level (ll ! i) = Some 1" by (simp only: lookup_level_simps)
    from a[OF this f(2)] show "num_of (log_level_encoded ll ! i) = Some 1" by simp
  next
    assume "ll ! i = StrV ''ERROR''"
    then have "lookup_level (ll ! i) = Some 2" by (simp only: lookup_level_simps)
    from a[OF this f(3)] show "num_of (log_level_encoded ll ! i) = Some 2" by simp
  next
    assume "ll ! i \<notin> {StrV ''INFO'', StrV ''WARN'', StrV ''ERROR''}"
    then have "lookup_level (ll ! i) = None" by (rule lookup_level_other)
    then show "log_level_encoded ll ! i = NaN" by (rule b)
  qed
qed

text \<open>
  C6. When feature engineering returns, every column of its result labelled
  \<open>log_level_encoded\<close> (there is one) is the encoding of the column \<open>log_level\<close> of its
  input. Row by row the encoding is the number 0 for \<^verbatim>\<open>INFO\<close>, 1 for \<^verbatim>\<open>WARN\<close>, 2 for \<^verbatim>\<open>ERROR\<close>,
  and the missing value NaN for every other cell: no number stands in for an unknown level.
\<close>

theorem log_level_encoded_mapping:
  assumes "engineer L now df = Inr out"
  shows "\<exists>ll enc. getcol df ''log_level'' = Inr ll \<and> enc = log_level_encoded ll \<and>
           (''log_level_encoded'', enc) \<in> set (cols out) \<and>
           (\<forall>c. (''log_level_encoded'', c) \<in> set (cols out) \<longrightarrow> c = enc) \<and>
           length enc = length ll \<and>
           (\<forall>i < length ll.
              (ll ! i = StrV ''INFO'' \<longrightarrow> num_of (enc ! i) = Some 0) \<and>
              (ll ! i = StrV ''WARN'' \<longrightarrow> num_of (enc ! i) = Some 1) \<and>
              (ll ! i = StrV ''ERROR'' \<longrightarrow> num_of (enc ! i) = Some 2) \<and>
              (ll ! i \<notin> {StrV ''INFO'', StrV ''WARN'', StrV ''ERROR''} \<longrightarrow> enc ! i = NaN))"
proof -
  from engineer_stages[OF assms] obtain raw ts ll msg svc where
    ll: "getcol df ''log_level'' = Inr ll" and
    out: "out = setcol (setcol (setcol (setcol (setcol (setcol (setcol df
            ''timestamp'' ts)
            ''event_date'' (map dt_date ts))
            ''hour_of_day'' (dt_hour ts))
            ''is_error'' (map is_error ll))
            ''log_level_encoded'' (log_level_encoded ll))
            ''message_length'' (map (message_length L) msg))
            ''service_error_rate'' (map_series (groupby_mean svc (map is_error ll)) svc)"
    by blast
  have present: "(''log_level_encoded'', log_level_encoded ll) \<in> set (cols out)"
    unfolding out by (simp add: labelled_setcol_other labelled_setcol_present)
  have only: "c = log_level_encoded ll" if "(''log_level_encoded'', c) \<in> set (cols out)" for c
    using that unfolding out
    by (simp add: labelled_setcol_other) (rule labelled_setcol_same)
  have len: "length (log_level_encoded ll) = length ll"
    by (simp add: log_level_encoded_def)
  from ll present only len log_level_encoded_rows show ?thesis by blast
qed

lemma demo_unknown_level_engineer:
  "\<exists>out. engineer demo_pandas demo_now demo_unknown_level = Inr out"
proof -
  have "case engineer demo_pandas demo_now demo_unknown_level of Inl e \<Rightarrow> False | Inr out \<Rightarrow> True"
    by code_simp
  then show ?thesis by (cases "engineer demo_pandas demo_now demo_unknown_level") auto
qed

theorem log_level_encoded_mapping_witness:
  "\<exists>out enc. engineer demo_pandas demo_now demo_unknown_level = Inr out \<and>
     (''log_level_encoded'', enc) \<in> set (cols out) \<and>
     num_of (enc ! 0) = Some 1 \<and> enc ! 1 = NaN"
proof -
  from demo_unknown_level_engineer obtain out where
    out: "engineer demo_pandas demo_now demo_unknown_level = Inr out" by blast
  from log_level_encoded_mapping[OF out] obtain ll enc where
    ll: "getcol demo_unknown_level ''log_level'' = Inr ll" and
    enc: "(''log_level_encoded'', enc) \<in> set (cols out)" and
    rows: "\<forall>i < length ll.
              (ll ! i = StrV ''INFO'' \<longrightarrow> num_of (enc ! i) = Some 0) \<and>
              (ll ! i = StrV ''WARN'' \<longrightarrow> num_of (enc ! i) = Some 1) \<and>
              (ll ! i = StrV ''ERROR'' \<longrightarrow> num_of (enc ! i) = Some 2) \<and>
              (ll ! i \<notin> {StrV ''INFO'', StrV ''WARN'', StrV ''ERROR''} \<longrightarrow> enc ! i = NaN)"
    by blast
  have "getcol demo_unknown_level ''log_level'' = Inr [StrV ''WARN'', StrV ''DEBUG'']"
    by (simp add: getcol_def demo_unknown_level_def)
  with ll have l: "ll = [StrV ''WARN'', StrV ''DEBUG'']" by simp
  from rows[rule_format, of 0] l have a: "num_of (enc ! 0) = Some 1" by simp
  from rows[rule_format, of 1] l have b: "enc ! 1 = NaN" by simp
  from out enc a b show ?thesis by blast
qed

section \<open>Normalisation and validation\<close>

lemma isspace_lower_char: "isspace (lower_char c) = isspace c"
proof (cases "map_of (zip ''ABCDEFGHIJKLMNOPQRSTUVWXYZ'' ''abcdefghijklmnopqrstuvwxyz'') c")
  case None
  then show ?thesis by (simp add: lower_char_def)
next
  case (Some l)
  then have "(c, l) \<in> set (zip ''ABCDEFGHIJKLMNOPQRSTUVWXYZ'' ''abcdefghijklmnopqrstuvwxyz'')"
    by (rule map_of_SomeD)
  then have "\<not> isspace c \<and> \<not> isspace l"
    by (auto simp: isspace_def)
  with Some show ?thesis by (simp add: lower_char_def)
qed

lemma strip_padded:
  assumes "list_all isspace pre" "list_all isspace post"
    and "body \<noteq> []" "\<not> isspace (hd body)" "\<not> isspace (last body)"
  shows "strip (pre @ body @ post) = body"
proof -
  from assms have pre: "\<forall>c \<in> set pre. isspace c" and post: "\<forall>c \<in> set post. isspace c"
    by (simp_all add: list_all_iff)
  have a: "dropWhile isspace (pre @ body @ post) = body @ post"
    using pre assms(3,4) by (cases body) (simp_all add: dropWhile_append)
  have b: "dropWhile isspace (rev (body @ post)) = rev body"
    using post assms(3,5)
    by (cases "rev body") (auto simp: dropWhile_append last_rev hd_rev dest: arg_cong[where f=hd])
  show ?thesis by (simp add: strip_def a b del: rev_append)
qed

lemma required_shape:
  assumes "r \<in> set required_columns" "lower body = r"
  shows "body \<noteq> [] \<and> \<not> isspace (hd body) \<and> \<not> isspace (last body)"
proof -
  from assms have r: "r \<noteq> [] \<and> \<not> isspace (hd r) \<and> \<not> isspace (last r)"
    by (auto simp: required_columns_def isspace_def)
  with assms(2) have ne: "body \<noteq> []" by (auto simp: lower_def)
  have "hd r = lower_char (hd body)" "last r = lower_char (last body)"
    using assms(2) ne by (auto simp: lower_def hd_map last_map)
  with r ne show ?thesis by (simp add: isspace_lower_char)
qed

lemma normalize_spelling:
  assumes "r \<in> set required_columns" "spelling_of r l"
  shows "lower (strip l) = r"
proof -
  from assms(2) obtain pre body post where
    l: "l = pre @ body @ post" and sp: "list_all isspace pre" "list_all isspace post" and
    b: "lower body = r"
    unfolding spelling_of_def by blast
  from required_shape[OF assms(1) b] sp have "strip (pre @ body @ post) = body"
    by (intro strip_padded) simp_all
  with l b show ?thesis by simp
qed

text \<open>
  C5. Normalisation is a total function on tables: it relabels every column with its label
  stripped and lower-cased, in place, and changes neither the cells, nor the order of the
  columns, nor the row count. A table in which every required label is spelled in some mix
  of case, with white space around it, passes validation after normalisation, and
  validation returns the normalised table.
\<close>

theorem normalize_relabels:
  "columns (normalize df) = map (\<lambda>l. lower (strip l)) (columns df) \<and>
   map snd (cols (normalize df)) = map snd (cols df) \<and>
   nrows (normalize df) = nrows df \<and>
   ((\<forall>r \<in> set required_columns. \<exists>l \<in> set (columns df). spelling_of r l) \<longrightarrow>
      set required_columns \<subseteq> set (columns (normalize df)) \<and>
      validate (normalize df) = Inr (normalize df))"
proof -
  have c: "columns (normalize df) = map (\<lambda>l. lower (strip l)) (columns df)"
    by (simp add: normalize_def columns_def comp_def)
  have v: "map snd (cols (normalize df)) = map snd (cols df)"
    by (simp add: normalize_def comp_def)
  have n: "nrows (normalize df) = nrows df"
    by (simp add: normalize_def)
  have "set required_columns \<subseteq> set (columns (normalize df))"
    if h: "\<forall>r \<in> set required_columns. \<exists>l \<in> set (columns df). spelling_of r l"
  proof
    fix r assume r: "r \<in> set required_columns"
    with h obtain l where l: "l \<in> set (columns df)" "spelling_of r l" by blast
    from normalize_spelling[OF r l(2)] l(1) show "r \<in> set (columns (normalize df))"
      unfolding c by force
  qed
  then show ?thesis using c v n by (simp add: validate_def)
qed

theorem normalize_relabels_witness:
  "columns (normalize demo_headers) =
     [''timestamp'', ''log_level'', ''service'', ''message'', ''user_id''] \<and>
   validate (normalize demo_headers) = Inr (normalize demo_headers)"
proof -
  have s: "spelling_of ''timestamp'' ''Timestamp''" "spelling_of ''log_level'' '' Log_Level ''"
    "spelling_of ''service'' ''service''" "spelling_of ''message'' ''message''"
    "spelling_of ''user_id'' ''USER_ID  ''"
    unfolding spelling_of_def
    subgoal by (rule exI[of _ "''''"], rule exI[of _ "''Timestamp''"], rule exI[of _ "''''"])
        (simp add: lower_def lower_char_def isspace_def)
    subgoal by (rule exI[of _ "'' ''"], rule exI[of _ "''Log_Level''"], rule exI[of _ "'' ''"])
        (simp add: lower_def lower_char_def isspace_def)
    subgoal by (rule exI[of _ "''''"], rule exI[of _ "''service''"], rule exI[of _ "''''"])
        (simp add: lower_def lower_char_def isspace_def)
    subgoal by (rule exI[of _ "''''"], rule exI[of _ "''message''"], rule exI[of _ "''''"])
        (simp add: lower_def lower_char_def isspace_def)
    subgoal by (rule exI[of _ "''''"], rule exI[of _ "''USER_ID''"], rule exI[of _ "''  ''"])
        (simp add: lower_def lower_char_def isspace_def)
    done
  have h: "\<forall>r \<in> set required_columns. \<exists>l \<in> set (columns demo_headers). spelling_of r l"
    using s by (simp add: required_columns_def columns_def demo_headers_def)
  have c: "columns demo_headers = [''Timestamp'', '' Log_Level '', ''service'', ''message'', ''USER_ID  '']"
    by (simp add: columns_def demo_headers_def)
  have "map (\<lambda>l. lower (strip l)) (columns demo_headers) =
     [''timestamp'', ''log_level'', ''service'', ''message'', ''user_id'']"
    unfolding c by (simp add: lower_def strip_def isspace_def lower_char_def)
  with normalize_relabels[of demo_headers] h show ?thesis by simp
qed

section \<open>Validation\<close>

text \<open>
  C3. Validation of a table whose labels miss a required one fails with the error that
  carries the labels found, and returns the table unchanged otherwise. When the stored object
  reads as a table whose normalised labels miss a required one, the run ends with that
  error and leaves everything as it was: nothing is passed on and nothing is loaded.
\<close>

theorem validate_all_or_nothing:
  "(\<not> set required_columns \<subseteq> set (columns df) \<longrightarrow>
      validate df = Inl (MissingRequiredColumns (columns df))) \<and>
   (set required_columns \<subseteq> set (columns df) \<longrightarrow> validate df = Inr df) \<and>
   (gcs w ''ai-log-raw-data-215'' ''sample_logs.csv'' = Some text \<and>
    read_csv L text = Inr raw \<and>
    \<not> set required_columns \<subseteq> set (columns (normalize raw)) \<longrightarrow>
      dag_run L w = (Some (MissingRequiredColumns (columns (normalize raw))), w))"
  by (simp add: validate_def dag_run_def transform_logs_def download_def)

lemma demo_read_no_user:
  "read_csv demo_pandas demo_object_no_user =
     Inr \<lparr>nrows = 1,
          cols = [(''Timestamp'', [StrV ''2024-01-01 10:00:00'']), (''log_level'', [StrV ''INFO'']),
                  (''service'', [StrV ''svc-a'']), (''message'', [StrV ''hello''])]\<rparr>"
  by code_simp

theorem validate_all_or_nothing_witness:
  "dag_run demo_pandas demo_world_no_user =
     (Some (MissingRequiredColumns [''timestamp'', ''log_level'', ''service'', ''message'']),
      demo_world_no_user) \<and>
   validate demo_batch = Inr demo_batch"
proof -
  let ?raw = "\<lparr>nrows = 1,
          cols = [(''Timestamp'', [StrV ''2024-01-01 10:00:00'']), (''log_level'', [StrV ''INFO'']),
                  (''service'', [StrV ''svc-a'']), (''message'', [StrV ''hello''])]\<rparr>"
  have g: "gcs demo_world_no_user ''ai-log-raw-data-215'' ''sample_logs.csv'' = Some demo_object_no_user"
    by (simp add: demo_world_no_user_def)
  have c: "columns (normalize ?raw) = [''timestamp'', ''log_level'', ''service'', ''message'']"
    by (simp add: columns_def normalize_def lower_def strip_def isspace_def lower_char_def)
  have m: "\<not> set required_columns \<subseteq> set (columns (normalize ?raw))"
    unfolding c by (simp add: required_columns_def)
  have v: "set required_columns \<subseteq> set (columns demo_batch)"
    by (simp add: required_columns_def columns_def demo_batch_def)
  from validate_all_or_nothing[of demo_batch demo_world_no_user demo_object_no_user demo_pandas ?raw]
    g demo_read_no_user m v c
  show ?thesis by simp
qed

section \<open>Determinism of the transform\<close>

lemma traverse_cong: "(\<And>x. x \<in> set xs \<Longrightarrow> f x = g x) \<Longrightarrow> traverse f xs = traverse g xs"
  by (induction xs) (auto split: sum.splits)

lemma to_datetime_clock:
  assumes "\<And>c. c \<in> set col \<Longrightarrow> \<not> isna c \<Longrightarrow>
             to_datetime_value L t1 col c = to_datetime_value L t2 col c"
  shows "to_datetime L t1 col = to_datetime L t2 col"
  unfolding to_datetime_def
  by (rule traverse_cong) (simp add: parse_cell_def assms)

lemma engineer_clock:
  assumes "\<And>raw. getcol df ''timestamp'' = Inr raw \<Longrightarrow>
             to_datetime L t1 raw = to_datetime L t2 raw"
  shows "engineer L t1 df = engineer L t2 df"
proof (cases "getcol df ''timestamp''")
  case (Inl e)
  then show ?thesis by (simp add: engineer_def parse_timestamp_def)
next
  case (Inr raw)
  with assms[OF Inr] show ?thesis by (simp add: engineer_def parse_timestamp_def)
qed

lemma demo_read:
  "read_csv demo_pandas demo_object =
     Inr \<lparr>nrows = 3,
          cols =
            [(''Timestamp'',
              [StrV ''2024-01-01 10:00:00'', StrV ''2024-01-01 11:30:00'',
               StrV ''2024-01-02 23:59:59'']),
             ('' Log_Level '', [StrV ''INFO'', StrV ''ERROR'', StrV ''ERROR'']),
             (''service'', [StrV ''svc-a'', StrV ''svc-a'', StrV ''svc-b'']),
             (''message'', [StrV ''hello'', StrV ''oops'', StrV ''bad'']),
             (''user_id'', [IntV 1, IntV 2, IntV 3])]\<rparr>"
  by code_simp

text \<open>
  C9, amended. The text the transform task returns depends on the stored object and on
  what \<^verbatim>\<open>pd.to_datetime\<close> makes of its timestamps at the time at which the task runs, and on
  nothing else. Two runs that find the same object, at times between which \<^verbatim>\<open>pd.to_datetime\<close>
  makes no difference for the timestamps of the object that are present, return the same
  text (or fail alike), whatever the earlier runs passed on or loaded, and whatever else
  the store holds.
\<close>

theorem transform_logs_deterministic:
  assumes "gcs w1 ''ai-log-raw-data-215'' ''sample_logs.csv'' =
           gcs w2 ''ai-log-raw-data-215'' ''sample_logs.csv''"
    and "\<forall>text raw col c.
           gcs w1 ''ai-log-raw-data-215'' ''sample_logs.csv'' = Some text \<and>
           read_csv L text = Inr raw \<and> getcol (normalize raw) ''timestamp'' = Inr col \<and>
           c \<in> set col \<and> \<not> isna c \<longrightarrow>
             to_datetime_value L (clock w1 ''transform_logs_feature_engineering'') col c =
             to_datetime_value L (clock w2 ''transform_logs_feature_engineering'') col c"
  shows "transform_logs L w1 = transform_logs L w2"
proof (cases "gcs w1 ''ai-log-raw-data-215'' ''sample_logs.csv''")
  case None
  with assms(1) show ?thesis by (simp add: transform_logs_def download_def)
next
  case (Some content)
  show ?thesis
  proof (cases "read_csv L content")
    case (Inl e)
    with Some assms(1) show ?thesis by (simp add: transform_logs_def download_def)
  next
    case (Inr raw)
    have "to_datetime L (clock w1 ''transform_logs_feature_engineering'') col =
          to_datetime L (clock w2 ''transform_logs_feature_engineering'') col"
      if "getcol (normalize raw) ''timestamp'' = Inr col" for col
      using assms(2) Some Inr that by (intro to_datetime_clock) blast
    then have "engineer L (clock w1 ''transform_logs_feature_engineering'') (normalize raw) =
               engineer L (clock w2 ''transform_logs_feature_engineering'') (normalize raw)"
      by (rule engineer_clock)
    with Some Inr assms(1) show ?thesis
      by (simp add: transform_logs_def download_def validate_def)
  qed
qed

theorem transform_logs_deterministic_witness:
  "transform_logs demo_pandas demo_world = transform_logs demo_pandas demo_world_later \<and>
   xcom demo_world ''transform_logs_feature_engineering'' \<noteq>
     xcom demo_world_later ''transform_logs_feature_engineering'' \<and>
   clock demo_world ''transform_logs_feature_engineering'' \<noteq>
     clock demo_world_later ''transform_logs_feature_engineering'' \<and>
   (\<exists>text. transform_logs demo_pandas demo_world = Inr text)"
proof -
  have g: "gcs demo_world ''ai-log-raw-data-215'' ''sample_logs.csv'' =
           gcs demo_world_later ''ai-log-raw-data-215'' ''sample_logs.csv''"
    by (simp add: demo_world_def demo_world_later_def)
  have o: "gcs demo_world ''ai-log-raw-data-215'' ''sample_logs.csv'' = Some demo_object"
    by (simp add: demo_world_def)
  have x: "xcom demo_world ''transform_logs_feature_engineering'' \<noteq>
     xcom demo_world_later ''transform_logs_feature_engineering''"
    by (simp add: demo_world_def demo_world_later_def)
  have t: "clock demo_world ''transform_logs_feature_engineering'' \<noteq>
     clock demo_world_later ''transform_logs_feature_engineering''"
    by (simp add: demo_world_def demo_world_later_def demo_clock_def demo_now_def)
  have h: "\<forall>text raw col c.
           gcs demo_world ''ai-log-raw-data-215'' ''sample_logs.csv'' = Some text \<and>
           read_csv demo_pandas text = Inr raw \<and>
           getcol (normalize raw) ''timestamp'' = Inr col \<and> c \<in> set col \<and> \<not> isna c \<longrightarrow>
             to_datetime_value demo_pandas
               (clock demo_world ''transform_logs_feature_engineering'') col c =
             to_datetime_value demo_pandas
               (clock demo_world_later ''transform_logs_feature_engineering'') col c"
  proof (intro allI impI)
    fix content raw col c
    assume a: "gcs demo_world ''ai-log-raw-data-215'' ''sample_logs.csv'' = Some content \<and>
           read_csv demo_pandas content = Inr raw \<and>
           getcol (normalize raw) ''timestamp'' = Inr col \<and> c \<in> set col \<and> \<not> isna c"
    with o have "content = demo_object" by simp
    with a demo_read have
      "getcol (normalize \<lparr>nrows = 3,
          cols =
            [(''Timestamp'',
              [StrV ''2024-01-01 10:00:00'', StrV ''2024-01-01 11:30:00'',
               StrV ''2024-01-02 23:59:59'']),
             ('' Log_Level '', [StrV ''INFO'', StrV ''ERROR'', StrV ''ERROR'']),
             (''service'', [StrV ''svc-a'', StrV ''svc-a'', StrV ''svc-b'']),
             (''message'', [StrV ''hello'', StrV ''oops'', StrV ''bad'']),
             (''user_id'', [IntV 1, IntV 2, IntV 3])]\<rparr>) ''timestamp'' = Inr col"
      by auto
    then have "col = [StrV ''2024-01-01 10:00:00'', StrV ''2024-01-01 11:30:00'',
               StrV ''2024-01-02 23:59:59'']"
      by (simp add: getcol_def normalize_def lower_def strip_def isspace_def lower_char_def)
    with a have "c \<in> {StrV ''2024-01-01 10:00:00'', StrV ''2024-01-01 11:30:00'',
               StrV ''2024-01-02 23:59:59''}" by simp
    then show "to_datetime_value demo_pandas
               (clock demo_world ''transform_logs_feature_engineering'') col c =
             to_datetime_value demo_pandas
               (clock demo_world_later ''transform_logs_feature_engineering'') col c"
      by (auto simp: demo_pandas_def demo_to_datetime_def demo_instants_def)
  qed
  have "case transform_logs demo_pandas demo_world of Inl e \<Rightarrow> False | Inr text \<Rightarrow> True"
    by code_simp
  then have r: "\<exists>text. transform_logs demo_pandas demo_world = Inr text"
    by (cases "transform_logs demo_pandas demo_world") auto
  from transform_logs_deterministic[OF g h] x t r show ?thesis by simp
qed

text \<open>
  The claim as it stands fails on an object whose timestamp holds a time of day only:
  \<^verbatim>\<open>pd.to_datetime\<close> takes the day from the clock, and two runs that find the object below on
  different days return different text.
\<close>

theorem transform_logs_deterministic_counterexample:
  "gcs demo_world_time_only ''ai-log-raw-data-215'' ''sample_logs.csv'' =
     gcs demo_world_time_only_later ''ai-log-raw-data-215'' ''sample_logs.csv'' \<and>
   transform_logs demo_pandas demo_world_time_only =
     Inr [[''timestamp'', ''log_level'', ''service'', ''message'', ''user_id'', ''event_date'',
           ''hour_of_day'', ''is_error'', ''log_level_encoded'', ''message_length'',
           ''service_error_rate''],
          [''2024-03-04 10:30:00'', ''INFO'', ''svc-a'', ''hello'', ''1'', ''2024-03-04'', ''10'',
           ''0'', ''0'', ''5'', ''0.0'']] \<and>
   transform_logs demo_pandas demo_world_time_only_later =
     Inr [[''timestamp'', ''log_level'', ''service'', ''message'', ''user_id'', ''event_date'',
           ''hour_of_day'', ''is_error'', ''log_level_encoded'', ''message_length'',
           ''service_error_rate''],
          [''2024-03-05 10:30:00'', ''INFO'', ''svc-a'', ''hello'', ''1'', ''2024-03-05'', ''10'',
           ''0'', ''0'', ''5'', ''0.0'']]"
  by code_simp

section \<open>The error rate of a service\<close>

lemma group_values:
  "map snd (filter (\<lambda>p. fst p = s) (zip svc (map f ll))) =
   map (f \<circ> snd) (filter (\<lambda>p. fst p = s) (zip svc ll))"
proof (induction svc arbitrary: ll)
  case Nil
  then show ?case by simp
next
  case (Cons a svc)
  then show ?case by (cases ll) auto
qed

lemma num_of_is_error: "num_of (is_error c) = Some (if c = StrV ''ERROR'' then 1 else 0)"
  by (simp add: num_of_def is_error_def)

lemma map_filter_is_error:
  "List.map_filter num_of (map (is_error \<circ> snd) ps) =
   map (\<lambda>p. if snd p = StrV ''ERROR'' then 1 else 0) ps"
  by (induction ps) (simp_all add: map_filter_simps num_of_is_error)

lemma sum_list_indicator:
  "sum_list (map (\<lambda>p. if P p then 1 else 0) ps) = (of_nat (length (filter P ps)) :: rat)"
  by (induction ps) simp_all

lemma mean_is_error_group:
  assumes "filter (\<lambda>p. fst p = s) (zip svc ll) \<noteq> []"
  shows "mean (map snd (filter (\<lambda>p. fst p = s) (zip svc (map is_error ll)))) =
         FloatV (float64_of (batch_error_ratio svc ll s))"
proof -
  let ?g = "filter (\<lambda>p. fst p = s) (zip svc ll)"
  have f: "filter (\<lambda>p. fst p = s \<and> snd p = StrV ''ERROR'') (zip svc ll) =
           filter (\<lambda>p. snd p = StrV ''ERROR'') ?g"
    by (simp add: conj_commute)
  have "mean (map (is_error \<circ> snd) ?g) =
        FloatV (float64_of
          (of_nat (length (filter (\<lambda>p. snd p = StrV ''ERROR'') ?g)) / of_nat (length ?g)))"
    using assms by (simp add: mean_def map_filter_is_error sum_list_indicator Let_def)
  then show ?thesis
    unfolding batch_error_ratio_def f group_values by simp
qed

lemma map_of_groupby_mean:
  "map_of (groupby_mean keys vals) k =
     (if k \<in> set keys \<and> \<not> isna k
      then Some (mean (map snd (filter (\<lambda>p. fst p = k) (zip keys vals)))) else None)"
  by (simp add: groupby_mean_def map_of_map_restrict restrict_map_def)

lemma group_nonempty:
  assumes "i < length svc" "length ll = length svc"
  shows "filter (\<lambda>p. fst p = svc ! i) (zip svc ll) \<noteq> []"
proof -
  from assms have "(svc ! i, ll ! i) \<in> set (zip svc ll)"
    by (metis in_set_zip fst_conv snd_conv)
  then have "(svc ! i, ll ! i) \<in> set (filter (\<lambda>p. fst p = svc ! i) (zip svc ll))" by simp
  then show ?thesis by (metis empty_iff list.set(1))
qed

lemma rate_rows:
  assumes "i < length svc" "length ll = length svc"
  shows "map_series (groupby_mean svc (map is_error ll)) svc ! i =
         (if isna (svc ! i) then NaN else FloatV (float64_of (batch_error_ratio svc ll (svc ! i))))"
  using assms
  by (simp add: map_series_def map_of_groupby_mean mean_is_error_group group_nonempty)

lemma wf_getcol_length: "wf df \<Longrightarrow> getcol df k = Inr v \<Longrightarrow> length v = nrows df"
  by (auto simp: wf_def list_all_iff dest!: getcol_labelled)

text \<open>
  C1, amended. When feature engineering returns on a well-formed table, every column of
  its result labelled \<open>service_error_rate\<close> (there is one) holds, in each row whose service
  is present, the float64 nearest to the error ratio of that service in the batch: the
  rows of the batch with that service whose level is \<^verbatim>\<open>ERROR\<close>, over the rows of the batch
  with that service. In a row whose service is missing the rate is missing. Rows with the
  same service carry the same rate, and the rate is a function of the services and levels
  of the batch alone.
\<close>

theorem service_error_rate_is_batch_ratio:
  assumes "engineer L now df = Inr out" "wf df"
  shows "\<exists>svc ll rate.
           getcol df ''service'' = Inr svc \<and> getcol df ''log_level'' = Inr ll \<and>
           (''service_error_rate'', rate) \<in> set (cols out) \<and>
           (\<forall>c. (''service_error_rate'', c) \<in> set (cols out) \<longrightarrow> c = rate) \<and>
           length rate = length svc \<and>
           (\<forall>i < length svc.
              rate ! i = (if isna (svc ! i) then NaN
                          else FloatV (float64_of (batch_error_ratio svc ll (svc ! i))))) \<and>
           (\<forall>i < length svc. \<forall>j < length svc. svc ! i = svc ! j \<longrightarrow> rate ! i = rate ! j)"
proof -
  from engineer_stages[OF assms(1)] obtain raw ts ll msg svc where
    ll: "getcol df ''log_level'' = Inr ll" and svc: "getcol df ''service'' = Inr svc" and
    out: "out = setcol (setcol (setcol (setcol (setcol (setcol (setcol df
            ''timestamp'' ts)
            ''event_date'' (map dt_date ts))
            ''hour_of_day'' (dt_hour ts))
            ''is_error'' (map is_error ll))
            ''log_level_encoded'' (log_level_encoded ll))
            ''message_length'' (map (message_length L) msg))
            ''service_error_rate'' (map_series (groupby_mean svc (map is_error ll)) svc)"
    by blast
  define rate where "rate = map_series (groupby_mean svc (map is_error ll)) svc"
  have len: "length ll = length svc"
    using wf_getcol_length[OF assms(2) ll] wf_getcol_length[OF assms(2) svc] by simp
  have present: "(''service_error_rate'', rate) \<in> set (cols out)"
    unfolding out rate_def by (rule labelled_setcol_present)
  have only: "c = rate" if "(''service_error_rate'', c) \<in> set (cols out)" for c
    using that unfolding out rate_def by (rule labelled_setcol_same)
  have l: "length rate = length svc" by (simp add: rate_def map_series_def)
  have rows: "rate ! i = (if isna (svc ! i) then NaN
                          else FloatV (float64_of (batch_error_ratio svc ll (svc ! i))))"
    if "i < length svc" for i
    unfolding rate_def using rate_rows[OF that len] .
  have same: "rate ! i = rate ! j" if "i < length svc" "j < length svc" "svc ! i = svc ! j" for i j
    using rows[OF that(1)] rows[OF that(2)] that(3) by simp
  from svc ll present only l rows same show ?thesis by blast
qed

theorem service_error_rate_is_batch_ratio_witness:
  "engineer demo_pandas demo_now demo_batch = Inr demo_enriched \<and>
   (\<exists>rate. (''service_error_rate'', rate) \<in> set (cols demo_enriched) \<and>
      rate ! 0 = FloatV (Finite (1 / 2)) \<and> rate ! 2 = FloatV (Finite 1))"
proof -
  have w: "wf demo_batch" by (simp add: wf_def demo_batch_def)
  from service_error_rate_is_batch_ratio[OF demo_engineer w] obtain svc ll rate where
    svc: "getcol demo_batch ''service'' = Inr svc" and
    ll: "getcol demo_batch ''log_level'' = Inr ll" and
    p: "(''service_error_rate'', rate) \<in> set (cols demo_enriched)" and
    rows: "\<forall>i < length svc.
              rate ! i = (if isna (svc ! i) then NaN
                          else FloatV (float64_of (batch_error_ratio svc ll (svc ! i))))"
    by blast
  have "getcol demo_batch ''service'' = Inr [StrV ''svc-a'', StrV ''svc-a'', StrV ''svc-b'']"
    "getcol demo_batch ''log_level'' = Inr [StrV ''INFO'', StrV ''ERROR'', StrV ''ERROR'']"
    by (simp_all add: getcol_def demo_batch_def)
  with svc ll have e: "svc = [StrV ''svc-a'', StrV ''svc-a'', StrV ''svc-b'']"
    "ll = [StrV ''INFO'', StrV ''ERROR'', StrV ''ERROR'']" by simp_all
  from rows[rule_format, of 0] have a: "rate ! 0 = FloatV (Finite (1 / 2))"
    unfolding e by (simp add: isna_def batch_error_ratio_def float64_of_small)
  from rows[rule_format, of 2] have b: "rate ! 2 = FloatV (Finite 1)"
    unfolding e by (simp add: isna_def batch_error_ratio_def float64_of_small)
  from demo_engineer p a b show ?thesis by blast
qed

text \<open>
  The claim as it stands fails on a row whose service field is empty: the object below has
  such a row, with level \<^verbatim>\<open>ERROR\<close>. The rows that share its (missing) service are that row
  alone, so that their error ratio is 1, and the rate the program gives the row is missing.
\<close>

theorem service_error_rate_counterexample:
  "(case read_csv demo_pandas demo_object_blank_service of
      Inl e \<Rightarrow> None
    | Inr d \<Rightarrow>
        (case engineer demo_pandas demo_now (normalize d) of
           Inl e \<Rightarrow> None
         | Inr out \<Rightarrow>
             Some (validate (normalize d) = Inr (normalize d), getcol d ''service'',
                   getcol d ''log_level'', getcol out ''service_error_rate''))) =
   Some (True, Inr [NaN, StrV ''svc-a''], Inr [StrV ''ERROR'', StrV ''INFO''],
         Inr [NaN, FloatV (Finite 0)]) \<and>
   batch_error_ratio [NaN, StrV ''svc-a''] [StrV ''ERROR'', StrV ''INFO''] NaN = 1"
  by code_simp

section \<open>The frame of feature engineering\<close>

lemma cols_setcol:
  "cols (setcol df k v) =
     (if k \<in> set (columns df) then map (\<lambda>p. if fst p = k then (k, v) else p) (cols df)
      else cols df @ [(k, v)])"
  by (simp add: setcol_def)

lemma getcol_setcol_same_eq:
  "getcol (setcol df k v) k =
     (if getcol df k = Inl (AmbiguousColumn k) then Inl (AmbiguousColumn k) else Inr v)"
proof (cases "filter (\<lambda>p. fst p = k) (cols df)")
  case Nil
  then have "k \<notin> set (columns df)"
    by (auto simp: columns_def filter_empty_conv)
  with Nil show ?thesis by (simp add: getcol_def setcol_def)
next
  case (Cons p ps)
  then have "p \<in> set (filter (\<lambda>p. fst p = k) (cols df))" by simp
  then have "k \<in> set (columns df)" by (auto simp: columns_def)
  with Cons show ?thesis
    by (cases ps) (simp_all add: getcol_def setcol_def filter_fst_map_same)
qed

lemma getcol_in_columns: "getcol df k = Inr v \<Longrightarrow> k \<in> set (columns df)"
  by (drule getcol_labelled) (force simp: columns_def)

lemma getcol_distinct:
  assumes "distinct (columns df)" "k \<in> set (columns df)"
  shows "\<exists>v. getcol df k = Inr v"
proof -
  from assms(1) have "distinct (map fst (filter (\<lambda>p. fst p = k) (cols df)))"
    unfolding columns_def by (rule distinct_map_filter)
  moreover have "\<forall>p \<in> set (filter (\<lambda>p. fst p = k) (cols df)). fst p = k" by simp
  ultimately have le: "length (filter (\<lambda>p. fst p = k) (cols df)) \<le> 1"
    by (cases "filter (\<lambda>p. fst p = k) (cols df)" rule: remdups_adj.cases) auto
  from assms(2) have "filter (\<lambda>p. fst p = k) (cols df) \<noteq> []"
    by (auto simp: columns_def filter_empty_conv)
  with le show ?thesis
    by (cases "filter (\<lambda>p. fst p = k) (cols df)" rule: remdups_adj.cases)
      (auto simp: getcol_def)
qed

lemma traverse_length: "traverse f xs = Inr ys \<Longrightarrow> length ys = length xs"
  by (induction xs arbitrary: ys) (auto split: sum.splits)

lemma engineer_total:
  assumes "getcol df ''timestamp'' = Inr raw" "to_datetime L now raw = Inr ts"
    "getcol df ''log_level'' = Inr ll" "getcol df ''message'' = Inr msg"
    "getcol df ''service'' = Inr svc" "getcol df ''is_error'' \<noteq> Inl (AmbiguousColumn ''is_error'')"
  shows "\<exists>out. engineer L now df = Inr out"
  using assms
  by (simp add: engineer_def parse_timestamp_def add_event_date_def add_hour_of_day_def
      add_is_error_def add_log_level_encoded_def add_message_length_def
      add_service_error_rate_def getcol_setcol_other getcol_setcol_same_eq)

lemma wf_setcol: "wf df \<Longrightarrow> length v = nrows df \<Longrightarrow> wf (setcol df k v)"
  by (auto simp: wf_def setcol_def list_all_iff)

lemma length_map_series [simp]: "length (map_series m col) = length col"
  by (simp add: map_series_def)

lemma length_dt_hour [simp]: "length (dt_hour col) = length col"
  by (simp add: dt_hour_def)

lemma length_log_level_encoded [simp]: "length (log_level_encoded col) = length col"
  by (simp add: log_level_encoded_def)

lemma engineer_cols:
  assumes e: "engineer L now df = Inr out"
    and t: "''timestamp'' \<in> set (columns df)"
    and d: "set derived_columns \<inter> set (columns df) = {}"
  shows "\<exists>ts ll msg svc.
    getcol df ''log_level'' = Inr ll \<and> getcol df ''message'' = Inr msg \<and>
    getcol df ''service'' = Inr svc \<and> (\<exists>raw. getcol df ''timestamp'' = Inr raw \<and> to_datetime L now raw = Inr ts) \<and>
    nrows out = nrows df \<and>
    cols out =
      map (\<lambda>p. if fst p = ''timestamp'' then (''timestamp'', ts) else p) (cols df) @
      [(''event_date'', map dt_date ts), (''hour_of_day'', dt_hour ts),
       (''is_error'', map is_error ll), (''log_level_encoded'', log_level_encoded ll),
       (''message_length'', map (message_length L) msg),
       (''service_error_rate'', map_series (groupby_mean svc (map is_error ll)) svc)]"
proof -
  from engineer_stages[OF e] obtain raw ts ll msg svc where
    raw: "getcol df ''timestamp'' = Inr raw" "to_datetime L now raw = Inr ts" and
    ll: "getcol df ''log_level'' = Inr ll" and msg: "getcol df ''message'' = Inr msg" and
    svc: "getcol df ''service'' = Inr svc" and
    out: "out = setcol (setcol (setcol (setcol (setcol (setcol (setcol df
            ''timestamp'' ts)
            ''event_date'' (map dt_date ts))
            ''hour_of_day'' (dt_hour ts))
            ''is_error'' (map is_error ll))
            ''log_level_encoded'' (log_level_encoded ll))
            ''message_length'' (map (message_length L) msg))
            ''service_error_rate'' (map_series (groupby_mean svc (map is_error ll)) svc)"
    by blast
  from d have n: "''event_date'' \<notin> set (columns df)" "''hour_of_day'' \<notin> set (columns df)"
    "''is_error'' \<notin> set (columns df)" "''log_level_encoded'' \<notin> set (columns df)"
    "''message_length'' \<notin> set (columns df)" "''service_error_rate'' \<notin> set (columns df)"
    by (auto simp: derived_columns_def)
  have c: "cols out =
      map (\<lambda>p. if fst p = ''timestamp'' then (''timestamp'', ts) else p) (cols df) @
      [(''event_date'', map dt_date ts), (''hour_of_day'', dt_hour ts),
       (''is_error'', map is_error ll), (''log_level_encoded'', log_level_encoded ll),
       (''message_length'', map (message_length L) msg),
       (''service_error_rate'', map_series (groupby_mean svc (map is_error ll)) svc)]"
    unfolding out using t n by (simp add: cols_setcol columns_setcol)
  have "nrows out = nrows df" unfolding out by simp
  with raw ll msg svc c show ?thesis by blast
qed

text \<open>
  C7, amended. Take a well-formed, validated table that has no column labelled as one of
  the six derived columns. Whenever feature engineering returns on it, the result has the
  columns of the input, in their order, followed by the six derived columns; it has the
  same row count and is well-formed; every column other than \<open>timestamp\<close> is the column of
  the input, cell by cell, at its place; and \<open>log_level\<close>, \<open>service\<close>, \<open>message\<close> and \<open>user_id\<close>
  read as in the input. Feature engineering raises when \<^verbatim>\<open>pd.to_datetime\<close> raises on the
  timestamps; when the labels of the table are pairwise different and its three statements
  on the timestamp return, it returns.
\<close>

theorem engineer_frame:
  assumes "wf df" "validate df = Inr df" "set derived_columns \<inter> set (columns df) = {}"
  shows "(\<forall>out. engineer L now df = Inr out \<longrightarrow>
            columns out = columns df @ derived_columns \<and> nrows out = nrows df \<and> wf out \<and>
            (\<forall>i < length (cols df).
               fst (cols df ! i) \<noteq> ''timestamp'' \<longrightarrow> cols out ! i = cols df ! i) \<and>
            (\<forall>k \<in> {''log_level'', ''service'', ''message'', ''user_id''}.
               getcol out k = getcol df k)) \<and>
         (\<forall>raw e. getcol df ''timestamp'' = Inr raw \<and> to_datetime L now raw = Inl e \<longrightarrow>
            engineer L now df = Inl e) \<and>
         (distinct (columns df) \<and>
          (\<exists>d1 d2 d3. parse_timestamp L now df = Inr d1 \<and> add_event_date d1 = Inr d2 \<and>
             add_hour_of_day d2 = Inr d3) \<longrightarrow>
            (\<exists>out. engineer L now df = Inr out))"
proof -
  from assms(2) have req: "set required_columns \<subseteq> set (columns df)"
    by (auto simp: validate_def split: if_splits)
  then have t: "''timestamp'' \<in> set (columns df)" by (auto simp: required_columns_def)
  have part1: "columns out = columns df @ derived_columns \<and> nrows out = nrows df \<and> wf out \<and>
            (\<forall>i < length (cols df).
               fst (cols df ! i) \<noteq> ''timestamp'' \<longrightarrow> cols out ! i = cols df ! i) \<and>
            (\<forall>k \<in> {''log_level'', ''service'', ''message'', ''user_id''}.
               getcol out k = getcol df k)"
    if e: "engineer L now df = Inr out" for out
  proof -
    from engineer_cols[OF e t assms(3)] obtain ts ll msg svc raw where
      ll: "getcol df ''log_level'' = Inr ll" and msg: "getcol df ''message'' = Inr msg" and
      svc: "getcol df ''service'' = Inr svc" and raw: "getcol df ''timestamp'' = Inr raw" and
      ts: "to_datetime L now raw = Inr ts" and n: "nrows out = nrows df" and
      c: "cols out =
        map (\<lambda>p. if fst p = ''timestamp'' then (''timestamp'', ts) else p) (cols df) @
        [(''event_date'', map dt_date ts), (''hour_of_day'', dt_hour ts),
         (''is_error'', map is_error ll), (''log_level_encoded'', log_level_encoded ll),
         (''message_length'', map (message_length L) msg),
         (''service_error_rate'', map_series (groupby_mean svc (map is_error ll)) svc)]"
      by blast
    have c1: "columns out = columns df @ derived_columns"
      unfolding columns_def c derived_columns_def
      by (simp add: comp_def if_distrib cong: if_cong)
    have lts: "length ts = nrows df"
      using traverse_length[OF ts[unfolded to_datetime_def]] wf_getcol_length[OF assms(1) raw]
      by simp
    have lens: "length ll = nrows df" "length msg = nrows df" "length svc = nrows df"
      using wf_getcol_length[OF assms(1)] ll msg svc by simp_all
    have c3: "wf out"
      using assms(1) lts lens unfolding wf_def c n by (auto simp: list_all_iff)
    have c4: "cols out ! i = cols df ! i"
      if "i < length (cols df)" "fst (cols df ! i) \<noteq> ''timestamp''" for i
      using that unfolding c by (simp add: nth_append)
    have c5: "getcol out k = getcol df k"
      if "k \<in> {''log_level'', ''service'', ''message'', ''user_id''}" for k
    proof -
      from engineer_stages[OF e] obtain raw' ts' ll' msg' svc' where
        out: "out = setcol (setcol (setcol (setcol (setcol (setcol (setcol df
            ''timestamp'' ts')
            ''event_date'' (map dt_date ts'))
            ''hour_of_day'' (dt_hour ts'))
            ''is_error'' (map is_error ll'))
            ''log_level_encoded'' (log_level_encoded ll'))
            ''message_length'' (map (message_length L) msg'))
            ''service_error_rate'' (map_series (groupby_mean svc' (map is_error ll')) svc')"
        by blast
      from that show ?thesis unfolding out by (auto simp: getcol_setcol_other)
    qed
    from c1 n c3 c4 c5 show ?thesis by blast
  qed
  have part2: "engineer L now df = Inl e"
    if "getcol df ''timestamp'' = Inr raw \<and> to_datetime L now raw = Inl e" for raw e
    using that by (simp add: engineer_def parse_timestamp_def)
  have part3: "\<exists>out. engineer L now df = Inr out"
    if h: "distinct (columns df) \<and>
          (\<exists>d1 d2 d3. parse_timestamp L now df = Inr d1 \<and> add_event_date d1 = Inr d2 \<and>
             add_hour_of_day d2 = Inr d3)"
  proof -
    from req have m: "''log_level'' \<in> set (columns df)" "''message'' \<in> set (columns df)"
      "''service'' \<in> set (columns df)" by (auto simp: required_columns_def)
    from h have dist: "distinct (columns df)" by simp
    from h obtain d1 where "parse_timestamp L now df = Inr d1" by blast
    then obtain raw ts where g1: "getcol df ''timestamp'' = Inr raw"
      and ts: "to_datetime L now raw = Inr ts"
      unfolding parse_timestamp_def and_then_Inr by blast
    from getcol_distinct[OF dist m(1)] obtain ll where g2: "getcol df ''log_level'' = Inr ll" by blast
    from getcol_distinct[OF dist m(2)] obtain msg where g3: "getcol df ''message'' = Inr msg" by blast
    from getcol_distinct[OF dist m(3)] obtain svc where g4: "getcol df ''service'' = Inr svc" by blast
    from assms(3) have "''is_error'' \<notin> set (columns df)" by (auto simp: derived_columns_def)
    then have "getcol df ''is_error'' = Inl (KeyError ''is_error'')"
      by (simp add: getcol_def columns_def filter_fst_absent)
    then have "getcol df ''is_error'' \<noteq> Inl (AmbiguousColumn ''is_error'')" by simp
    from engineer_total[OF g1 ts g2 g3 g4 this] show ?thesis .
  qed
  from part1 part2 part3 show ?thesis by blast
qed

theorem engineer_frame_witness:
  "engineer demo_pandas demo_now demo_batch = Inr demo_enriched \<and>
   columns demo_enriched = columns demo_batch @ derived_columns \<and>
   nrows demo_enriched = 3 \<and> wf demo_enriched \<and>
   getcol demo_enriched ''user_id'' = Inr [IntV 1, IntV 2, IntV 3]"
proof -
  have w: "wf demo_batch" by (simp add: wf_def demo_batch_def)
  have v: "validate demo_batch = Inr demo_batch"
    by (simp add: validate_def required_columns_def columns_def demo_batch_def)
  have d: "set derived_columns \<inter> set (columns demo_batch) = {}"
    by (simp add: derived_columns_def columns_def demo_batch_def)
  have u: "getcol demo_batch ''user_id'' = Inr [IntV 1, IntV 2, IntV 3]"
    by (simp add: getcol_def demo_batch_def)
  have n: "nrows demo_batch = 3" by (simp add: demo_batch_def)
  from engineer_frame[OF w v d, of demo_pandas] demo_engineer u n show ?thesis by simp
qed

text \<open>
  The claim as it stands fails on a validated batch that already has a column labelled
  \<open>is_error\<close>: the values of that column are overwritten, and the result has five columns
  more than the input, not six.
\<close>

theorem engineer_frame_counterexample:
  "validate demo_flagged = Inr demo_flagged \<and>
   getcol demo_flagged ''is_error'' = Inr [IntV 7, IntV 7, IntV 7] \<and>
   (case engineer demo_pandas demo_now demo_flagged of
      Inl e \<Rightarrow> None
    | Inr out \<Rightarrow> Some (getcol out ''is_error'', length (cols out))) =
   Some (Inr [IntV 0, IntV 1, IntV 1], length (cols demo_flagged) + 5)"
  by code_simp

section \<open>Coercion\<close>

lemma traverse_Inr_all:
  "traverse f xs = Inr ys \<Longrightarrow> x \<in> set xs \<Longrightarrow> \<exists>y. f x = Inr y"
  by (induction xs arbitrary: ys) (auto split: sum.splits)

lemma getcol_unique: "getcol df k = Inr v \<Longrightarrow> (k, c) \<in> set (cols df) \<Longrightarrow> c = v"
proof -
  assume a: "getcol df k = Inr v" and b: "(k, c) \<in> set (cols df)"
  from a obtain p where p: "filter (\<lambda>p. fst p = k) (cols df) = [p]" "snd p = v"
    by (auto simp: getcol_def split: list.splits)
  from b have "(k, c) \<in> set (filter (\<lambda>p. fst p = k) (cols df))" by simp
  with p show ?thesis by auto
qed

lemma fix_timestamp_Inr:
  assumes "fix_timestamp L now d = Inr d'"
  shows "(\<exists>col. getcol d ''timestamp'' = Inr col \<and>
            (\<forall>c \<in> set col. \<not> uncoercible L now ''timestamp'' col c)) \<and>
         (\<forall>k. k \<noteq> ''timestamp'' \<longrightarrow> getcol d' k = getcol d k)"
proof -
  from assms obtain col v where g: "getcol d ''timestamp'' = Inr col"
    and t: "to_datetime L now col = Inr v" and d': "d' = setcol d ''timestamp'' v"
    unfolding fix_timestamp_def and_then_Inr by auto
  have "\<not> uncoercible L now ''timestamp'' col c" if "c \<in> set col" for c
    using traverse_Inr_all[OF t[unfolded to_datetime_def] that]
    by (auto simp: uncoercible_def parse_cell_def split: if_splits option.splits)
  with g d' show ?thesis by (auto simp: getcol_setcol_other)
qed

lemma fix_event_date_Inr:
  assumes "fix_event_date L now d = Inr d'"
  shows "(\<exists>col. getcol d ''event_date'' = Inr col \<and>
            (\<forall>c \<in> set col. \<not> uncoercible L now ''event_date'' col c)) \<and>
         (\<forall>k. k \<noteq> ''event_date'' \<longrightarrow> getcol d' k = getcol d k)"
proof -
  from assms obtain col v where g: "getcol d ''event_date'' = Inr col"
    and t: "to_datetime L now col = Inr v" and d': "d' = setcol d ''event_date'' (map dt_date v)"
    unfolding fix_event_date_def and_then_Inr by auto
  have "\<not> uncoercible L now ''event_date'' col c" if "c \<in> set col" for c
    using traverse_Inr_all[OF t[unfolded to_datetime_def] that]
    by (auto simp: uncoercible_def parse_cell_def split: if_splits option.splits)
  with g d' show ?thesis by (auto simp: getcol_setcol_other)
qed

lemma astype_int64_Inr:
  assumes "astype_int64 L k d = Inr d'" "k \<in> set int64_columns"
  shows "(\<exists>col. getcol d k = Inr col \<and> (\<forall>c \<in> set col. \<not> uncoercible L now k col c)) \<and>
         (\<forall>k'. k' \<noteq> k \<longrightarrow> getcol d' k' = getcol d k')"
proof -
  from assms(1) obtain col v where g: "getcol d k = Inr col"
    and t: "traverse (cast_int64 L (is_object col)) col = Inr v" and d': "d' = setcol d k v"
    unfolding astype_int64_def and_then_Inr by auto
  from assms(2) have nk: "k \<noteq> ''timestamp''" "k \<noteq> ''event_date''"
    by (auto simp: int64_columns_def)
  have "\<not> uncoercible L now k col c" if "c \<in> set col" for c
    using traverse_Inr_all[OF t that] assms(2) nk by (auto simp: uncoercible_def)
  with g d' show ?thesis by (auto simp: getcol_setcol_other)
qed

lemma astype_float64_Inr:
  assumes "astype_float64 L ''service_error_rate'' d = Inr d'"
  shows "(\<exists>col. getcol d ''service_error_rate'' = Inr col \<and>
            (\<forall>c \<in> set col. \<not> uncoercible L now ''service_error_rate'' col c)) \<and>
         (\<forall>k'. k' \<noteq> ''service_error_rate'' \<longrightarrow> getcol d' k' = getcol d k')"
proof -
  from assms(1) obtain col v where g: "getcol d ''service_error_rate'' = Inr col"
    and t: "traverse (cast_float64 L) col = Inr v" and d': "d' = setcol d ''service_error_rate'' v"
    unfolding astype_float64_def and_then_Inr by auto
  have "\<not> uncoercible L now ''service_error_rate'' col c" if "c \<in> set col" for c
    using traverse_Inr_all[OF t that] by (auto simp: uncoercible_def int64_columns_def)
  with g d' show ?thesis by (auto simp: getcol_setcol_other)
qed

lemma coerce_Inr:
  assumes "coerce L now d = Inr out"
    and "k = ''timestamp'' \<or> k = ''event_date'' \<or> k \<in> set int64_columns \<or>
         k = ''service_error_rate''"
  shows "\<exists>col. getcol d k = Inr col \<and> (\<forall>c \<in> set col. \<not> uncoercible L now k col c)"
proof -
  from assms(1) obtain d1 d2 d3 d4 d5 d6 d7 where
    s1: "fix_timestamp L now d = Inr d1" and s2: "fix_event_date L now d1 = Inr d2" and
    s3: "astype_int64 L ''hour_of_day'' d2 = Inr d3" and
    s4: "astype_int64 L ''log_level_encoded'' d3 = Inr d4" and
    s5: "astype_int64 L ''message_length'' d4 = Inr d5" and
    s6: "astype_int64 L ''is_error'' d5 = Inr d6" and
    s7: "astype_float64 L ''service_error_rate'' d6 = Inr d7" and
    s8: "astype_int64 L ''user_id'' d7 = Inr out"
    unfolding coerce_def and_then_Inr by blast
  have m: "''hour_of_day'' \<in> set int64_columns" "''log_level_encoded'' \<in> set int64_columns"
    "''message_length'' \<in> set int64_columns" "''is_error'' \<in> set int64_columns"
    "''user_id'' \<in> set int64_columns"
    by (simp_all add: int64_columns_def)
  note f1 = fix_timestamp_Inr[OF s1] and f2 = fix_event_date_Inr[OF s2]
    and f3 = astype_int64_Inr[OF s3 m(1)] and f4 = astype_int64_Inr[OF s4 m(2)]
    and f5 = astype_int64_Inr[OF s5 m(3)] and f6 = astype_int64_Inr[OF s6 m(4)]
    and f7 = astype_float64_Inr[OF s7] and f8 = astype_int64_Inr[OF s8 m(5)]
  have p1: "getcol d1 k' = getcol d k'" if "k' \<noteq> ''timestamp''" for k'
    using f1 that by blast
  have p2: "getcol d2 k' = getcol d1 k'" if "k' \<noteq> ''event_date''" for k'
    using f2 that by blast
  have p3: "getcol d3 k' = getcol d2 k'" if "k' \<noteq> ''hour_of_day''" for k'
    using f3 that by blast
  have p4: "getcol d4 k' = getcol d3 k'" if "k' \<noteq> ''log_level_encoded''" for k'
    using f4 that by blast
  have p5: "getcol d5 k' = getcol d4 k'" if "k' \<noteq> ''message_length''" for k'
    using f5 that by blast
  have p6: "getcol d6 k' = getcol d5 k'" if "k' \<noteq> ''is_error''" for k'
    using f6 that by blast
  have p7: "getcol d7 k' = getcol d6 k'" if "k' \<noteq> ''service_error_rate''" for k'
    using f7 that by blast
  have c1: "\<exists>col. getcol d ''timestamp'' = Inr col \<and>
      (\<forall>c \<in> set col. \<not> uncoercible L now ''timestamp'' col c)"
    using f1 by blast
  have c2: "\<exists>col. getcol d ''event_date'' = Inr col \<and>
      (\<forall>c \<in> set col. \<not> uncoercible L now ''event_date'' col c)"
    using f2 by (simp add: p1)
  have c3: "\<exists>col. getcol d ''hour_of_day'' = Inr col \<and>
      (\<forall>c \<in> set col. \<not> uncoercible L now ''hour_of_day'' col c)"
    using f3 by (simp add: p1 p2)
  have c4: "\<exists>col. getcol d ''log_level_encoded'' = Inr col \<and>
      (\<forall>c \<in> set col. \<not> uncoercible L now ''log_level_encoded'' col c)"
    using f4 by (simp add: p1 p2 p3)
  have c5: "\<exists>col. getcol d ''message_length'' = Inr col \<and>
      (\<forall>c \<in> set col. \<not> uncoercible L now ''message_length'' col c)"
    using f5 by (simp add: p1 p2 p3 p4)
  have c6: "\<exists>col. getcol d ''is_error'' = Inr col \<and>
      (\<forall>c \<in> set col. \<not> uncoercible L now ''is_error'' col c)"
    using f6 by (simp add: p1 p2 p3 p4 p5)
  have c7: "\<exists>col. getcol d ''service_error_rate'' = Inr col \<and>
      (\<forall>c \<in> set col. \<not> uncoercible L now ''service_error_rate'' col c)"
    using f7 by (simp add: p1 p2 p3 p4 p5 p6)
  have c8: "\<exists>col. getcol d ''user_id'' = Inr col \<and>
      (\<forall>c \<in> set col. \<not> uncoercible L now ''user_id'' col c)"
    using f8 by (simp add: p1 p2 p3 p4 p5 p6 p7)
  from assms(2) have "k = ''timestamp'' \<or> k = ''event_date'' \<or> k = ''hour_of_day'' \<or>
     k = ''log_level_encoded'' \<or> k = ''message_length'' \<or> k = ''is_error'' \<or>
     k = ''service_error_rate'' \<or> k = ''user_id''"
    by (auto simp: int64_columns_def)
  with c1 c2 c3 c4 c5 c6 c7 c8 show ?thesis by blast
qed



lemma load_after_failed_coerce:
  assumes "\<exists>e. coerce L (clock w ''load_to_bigquery'') d = Inl e" "read_csv L text = Inr d"
    "xcom w ''transform_logs_feature_engineering'' = Some text"
  shows "\<exists>e. load_to_bigquery L w = Inl e"
proof -
  from assms(2) have "text \<noteq> []" by (auto simp: read_csv_def)
  with assms show ?thesis by (auto simp: load_to_bigquery_def)
qed

lemma dag_run_after_failed_coerce:
  assumes "\<exists>e. coerce L (clock w ''load_to_bigquery'') d = Inl e" "read_csv L text = Inr d"
    "transform_logs L w = Inr text"
  shows "(\<exists>e. fst (dag_run L w) = Some e) \<and> bigquery (snd (dag_run L w)) = bigquery w"
proof -
  let ?w1 = "w\<lparr>xcom := (xcom w)(''transform_logs_feature_engineering'' \<mapsto> text)\<rparr>"
  have x: "xcom ?w1 ''transform_logs_feature_engineering'' = Some text" by simp
  from assms(1) have "\<exists>e. coerce L (clock ?w1 ''load_to_bigquery'') d = Inl e" by simp
  from load_after_failed_coerce[OF this assms(2) x] obtain e where
    "load_to_bigquery L ?w1 = Inl e" by blast
  with assms(3) show ?thesis by (simp add: dag_run_def)
qed





section \<open>The hand-off and the run\<close>

lemma length_infer_column [simp]: "length (infer_column L fs) = length fs"
  by (simp add: infer_column_def Let_def)

lemma read_csv_wf: "read_csv L text = Inr d \<Longrightarrow> wf d"
proof -
  assume a: "read_csv L text = Inr d"
  then obtain h rows where t: "text = h # rows"
    by (cases "text") (auto simp: read_csv_def)
  from a t have d: "d = \<lparr>nrows = length rows,
      cols = zip (header_names h)
               (map (\<lambda>j. infer_column L (map (\<lambda>r. r ! j) rows)) [0..<length h])\<rparr>"
    by (auto simp: read_csv_def split: if_splits)
  show ?thesis
    unfolding d wf_def list_all_iff by (auto dest!: set_zip_rightD)
qed

lemma wf_normalize: "wf (normalize df) = wf df"
  by (simp add: wf_def normalize_def list_all_iff)

lemma engineer_wf:
  assumes "engineer L now df = Inr out" "wf df"
  shows "wf out \<and> nrows out = nrows df"
proof -
  from engineer_stages[OF assms(1)] obtain raw ts ll msg svc where
    raw: "getcol df ''timestamp'' = Inr raw" and ts: "to_datetime L now raw = Inr ts" and
    ll: "getcol df ''log_level'' = Inr ll" and msg: "getcol df ''message'' = Inr msg" and
    svc: "getcol df ''service'' = Inr svc" and
    out: "out = setcol (setcol (setcol (setcol (setcol (setcol (setcol df
            ''timestamp'' ts)
            ''event_date'' (map dt_date ts))
            ''hour_of_day'' (dt_hour ts))
            ''is_error'' (map is_error ll))
            ''log_level_encoded'' (log_level_encoded ll))
            ''message_length'' (map (message_length L) msg))
            ''service_error_rate'' (map_series (groupby_mean svc (map is_error ll)) svc)"
    by blast
  have lts: "length ts = nrows df"
    using traverse_length[OF ts[unfolded to_datetime_def]] wf_getcol_length[OF assms(2) raw]
    by simp
  have lens: "length ll = nrows df" "length msg = nrows df" "length svc = nrows df"
    using wf_getcol_length[OF assms(2)] ll msg svc by simp_all
  have "wf out" unfolding out
    by (intro wf_setcol assms(2)) (simp_all add: lts lens)
  moreover have "nrows out = nrows df" unfolding out by simp
  ultimately show ?thesis by simp
qed

lemma engineer_encoded:
  assumes "engineer L now df = Inr out"
  shows "\<exists>ll. getcol df ''log_level'' = Inr ll \<and>
           (''log_level_encoded'', log_level_encoded ll) \<in> set (cols out) \<and>
           (\<forall>c. (''log_level_encoded'', c) \<in> set (cols out) \<longrightarrow> c = log_level_encoded ll)"
proof -
  from engineer_stages[OF assms] obtain raw ts ll msg svc where
    ll: "getcol df ''log_level'' = Inr ll" and
    out: "out = setcol (setcol (setcol (setcol (setcol (setcol (setcol df
            ''timestamp'' ts)
            ''event_date'' (map dt_date ts))
            ''hour_of_day'' (dt_hour ts))
            ''is_error'' (map is_error ll))
            ''log_level_encoded'' (log_level_encoded ll))
            ''message_length'' (map (message_length L) msg))
            ''service_error_rate'' (map_series (groupby_mean svc (map is_error ll)) svc)"
    by blast
  have present: "(''log_level_encoded'', log_level_encoded ll) \<in> set (cols out)"
    unfolding out by (simp add: labelled_setcol_other labelled_setcol_present)
  have only: "c = log_level_encoded ll" if "(''log_level_encoded'', c) \<in> set (cols out)" for c
    using that unfolding out
    by (simp add: labelled_setcol_other) (rule labelled_setcol_same)
  from ll present only show ?thesis by blast
qed

lemma infer_column_na:
  assumes "i < length fs" "fs ! i \<in> set na_values"
  shows "infer_column L fs ! i = NaN"
proof -
  have "int_column (map (\<lambda>f. if f \<in> set na_values then None else parse_int64 L f) fs) ! i = NaN"
    using assms by (intro int_column_nth_None) simp_all
  with assms show ?thesis
    by (simp add: infer_column_def Let_def)
qed

lemma empty_field_na: "[] \<in> set na_values"
  by (simp add: na_values_def)

lemma to_csv_field_NaN: "to_csv_field L col NaN = []"
  by (simp add: to_csv_field_def)

lemma handoff_column_keeps_missing:
  assumes "i < length col" "col ! i = NaN"
  shows "infer_column L (map (to_csv_field L col) col) ! i = NaN"
  using assms by (intro infer_column_na) (simp_all add: to_csv_field_NaN empty_field_na)

lemma encoded_has_missing:
  assumes "c \<in> set ll" "c \<notin> {StrV ''INFO'', StrV ''WARN'', StrV ''ERROR''}"
  shows "\<exists>i < length (log_level_encoded ll). log_level_encoded ll ! i = NaN"
proof -
  from assms(1) obtain i where i: "i < length ll" "ll ! i = c" by (auto simp: in_set_conv_nth)
  with log_level_encoded_rows[OF i(1)] assms(2) have "log_level_encoded ll ! i = NaN" by simp
  with i(1) show ?thesis by auto
qed

lemma mangle_name: "mangle counts col = (col', counts') \<Longrightarrow> col' = col \<or> CHR ''.'' \<in> set col'"
proof (induction counts col arbitrary: col' counts' rule: mangle.induct)
  case (1 counts col)
  show ?case
  proof (cases "count_of counts col > 0")
    case True
    with "1.prems" have m: "mangle ((col, count_of counts col + 1) # counts)
        (col @ ''.'' @ show_nat (count_of counts col)) = (col', counts')"
      by (simp add: mangle.simps[of counts col] Let_def)
    from "1.IH"[OF refl True m] have
      "col' = col @ ''.'' @ show_nat (count_of counts col) \<or> CHR ''.'' \<in> set col'" .
    then show ?thesis by auto
  next
    case False
    with "1.prems" show ?thesis by (simp add: mangle.simps[of counts col] Let_def)
  qed
qed

lemma count_of_key: "count_of counts k > 0 \<Longrightarrow> k \<in> fst ` set counts"
  by (auto simp: count_of_def split: option.splits dest!: map_of_SomeD intro: rev_image_eqI)

lemma mangle_keys:
  "mangle counts col = (col', counts') \<Longrightarrow> fst ` set counts' \<subseteq> insert col' (fst ` set counts)"
proof (induction counts col arbitrary: col' counts' rule: mangle.induct)
  case (1 counts col)
  show ?case
  proof (cases "count_of counts col > 0")
    case True
    with "1.prems" have m: "mangle ((col, count_of counts col + 1) # counts)
        (col @ ''.'' @ show_nat (count_of counts col)) = (col', counts')"
      by (simp add: mangle.simps[of counts col] Let_def)
    from "1.IH"[OF refl True m] count_of_key[OF True] show ?thesis by auto
  next
    case False
    with "1.prems" show ?thesis by (auto simp: mangle.simps[of counts col] Let_def)
  qed
qed

lemma mangle_fresh: "k \<notin> fst ` set counts \<Longrightarrow> mangle counts k = (k, (k, 1) # counts)"
proof -
  assume "k \<notin> fst ` set counts"
  then have "count_of counts k = 0" using count_of_key[of counts k] by auto
  then show ?thesis by (simp add: mangle.simps[of counts k])
qed

lemma length_dedup_names [simp]: "length (dedup_names counts names) = length names"
  by (induction names arbitrary: counts) (auto split: prod.splits)

lemma dedup_names_nth:
  "j < length names \<Longrightarrow>
   dedup_names counts names ! j = names ! j \<or> CHR ''.'' \<in> set (dedup_names counts names ! j)"
proof (induction names arbitrary: counts j)
  case Nil
  then show ?case by simp
next
  case (Cons a names)
  obtain a' counts' where m: "mangle counts a = (a', counts')" by (cases "mangle counts a")
  show ?case
  proof (cases j)
    case 0
    with m mangle_name[OF m] show ?thesis by auto
  next
    case (Suc n)
    with Cons.prems have "n < length names" by simp
    from Cons.IH[OF this, of counts'] m Suc show ?thesis by simp
  qed
qed

lemma dedup_names_first:
  assumes "k \<in> set names" "k \<notin> fst ` set counts" "CHR ''.'' \<notin> set k"
  shows "k \<in> set (dedup_names counts names)"
  using assms
proof (induction names arbitrary: counts)
  case Nil
  then show ?case by simp
next
  case (Cons a names)
  show ?case
  proof (cases "a = k")
    case True
    with Cons.prems(2) show ?thesis by (simp add: mangle_fresh)
  next
    case False
    obtain a' counts' where m: "mangle counts a = (a', counts')" by (cases "mangle counts a")
    from mangle_name[OF m] False Cons.prems(3) have "a' \<noteq> k" by auto
    with mangle_keys[OF m] Cons.prems(2) have "k \<notin> fst ` set counts'" by auto
    moreover from Cons.prems(1) False have "k \<in> set names" by simp
    ultimately have "k \<in> set (dedup_names counts' names)"
      using Cons.IH Cons.prems(3) by blast
    with m show ?thesis by simp
  qed
qed

lemma length_header_names [simp]: "length (header_names h) = length h"
  by (simp add: header_names_def)

lemma header_names_keeps:
  assumes "j < length h" "header_names h ! j = ''log_level_encoded''"
  shows "h ! j = ''log_level_encoded''"
proof -
  let ?ns = "map (\<lambda>j. if h ! j = [] then ''Unnamed: '' @ show_nat j else h ! j) [0..<length h]"
  from assms(1) have j: "j < length ?ns" by simp
  from dedup_names_nth[OF j, of "[]"] assms(2)
  have "?ns ! j = ''log_level_encoded''"
    unfolding header_names_def by auto
  with assms(1) show ?thesis by (auto split: if_splits)
qed

lemma header_names_has:
  assumes "''log_level_encoded'' \<in> set h"
  shows "''log_level_encoded'' \<in> set (header_names h)"
proof -
  let ?ns = "map (\<lambda>j. if h ! j = [] then ''Unnamed: '' @ show_nat j else h ! j) [0..<length h]"
  from assms obtain j where j: "j < length h" "h ! j = ''log_level_encoded''"
    by (auto simp: in_set_conv_nth)
  then have "?ns ! j = ''log_level_encoded''" by simp
  with j(1) have "''log_level_encoded'' \<in> set ?ns"
    by (metis (no_types, lifting) length_map length_upt minus_nat.diff_0 nth_mem)
  from dedup_names_first[OF this] show ?thesis
    unfolding header_names_def by simp
qed

lemma map_nth_fun: "map (\<lambda>j. f (xs ! j)) [0..<length xs] = map f xs"
  by (rule nth_equalityI) simp_all

lemma handoff:
  assumes "wf out"
  shows "read_csv L (to_csv L out) =
     Inr \<lparr>nrows = nrows out,
          cols = zip (header_names (columns out))
                   (map (\<lambda>p. infer_column L (map (to_csv_field L (snd p)) (snd p))) (cols out))\<rparr>"
proof -
  let ?rows = "map (\<lambda>i. map (\<lambda>p. to_csv_field L (snd p) (snd p ! i)) (cols out)) [0..<nrows out]"
  have rect: "list_all (\<lambda>r. length r = length (columns out)) ?rows"
    by (simp add: list_all_iff columns_def)
  have col: "infer_column L (map (\<lambda>r. r ! j) ?rows) =
             infer_column L (map (to_csv_field L (snd (cols out ! j))) (snd (cols out ! j)))"
    if "j < length (cols out)" for j
  proof -
    from assms that have len: "length (snd (cols out ! j)) = nrows out"
      by (simp add: wf_def list_all_length)
    have "map (\<lambda>r. r ! j) ?rows =
          map (\<lambda>i. to_csv_field L (snd (cols out ! j)) (snd (cols out ! j) ! i)) [0..<nrows out]"
      using that by (simp add: comp_def)
    also have "\<dots> = map (to_csv_field L (snd (cols out ! j))) (snd (cols out ! j))"
      using map_nth_fun[of "to_csv_field L (snd (cols out ! j))" "snd (cols out ! j)"] len
      by simp
    finally show ?thesis by simp
  qed
  have "map (\<lambda>j. infer_column L (map (\<lambda>r. r ! j) ?rows)) [0..<length (columns out)] =
        map (\<lambda>j. (\<lambda>p. infer_column L (map (to_csv_field L (snd p)) (snd p))) (cols out ! j))
          [0..<length (cols out)]"
    using col by (simp add: columns_def)
  also have "\<dots> = map (\<lambda>p. infer_column L (map (to_csv_field L (snd p)) (snd p))) (cols out)"
    by (rule map_nth_fun)
  finally have c: "map (\<lambda>j. infer_column L (map (\<lambda>r. r ! j) ?rows)) [0..<length (columns out)] =
        map (\<lambda>p. infer_column L (map (to_csv_field L (snd p)) (snd p))) (cols out)" .
  show ?thesis
    unfolding to_csv_def read_csv_def using rect c by simp
qed

lemma handoff_encoded:
  assumes w: "wf out"
    and p: "(''log_level_encoded'', enc) \<in> set (cols out)"
    and only: "\<forall>c. (''log_level_encoded'', c) \<in> set (cols out) \<longrightarrow> c = enc"
    and i: "i < length enc" "enc ! i = NaN"
  shows "\<exists>d. read_csv L (to_csv L out) = Inr d \<and>
           (\<exists>c. (''log_level_encoded'', c) \<in> set (cols d)) \<and>
           (\<forall>c. (''log_level_encoded'', c) \<in> set (cols d) \<longrightarrow> NaN \<in> set c)"
proof -
  let ?G = "\<lambda>p. infer_column L (map (to_csv_field L (snd p)) (snd p))"
  let ?names = "header_names (columns out)"
  let ?cs = "map ?G (cols out)"
  let ?d = "\<lparr>nrows = nrows out, cols = zip ?names ?cs\<rparr>"
  have r: "read_csv L (to_csv L out) = Inr ?d" by (rule handoff[OF w])
  have ln: "length ?names = length (cols out)" by (simp add: columns_def)
  have all: "NaN \<in> set c" if "(''log_level_encoded'', c) \<in> set (zip ?names ?cs)" for c
  proof -
    from that obtain j where j: "j < length (cols out)" "?names ! j = ''log_level_encoded''"
      "?cs ! j = c"
      using ln by (auto simp: in_set_zip)
    from j(1) have jc: "j < length (columns out)" by (simp add: columns_def)
    from header_names_keeps[OF jc j(2)] j(1) have "fst (cols out ! j) = ''log_level_encoded''"
      by (simp add: columns_def)
    moreover from j(1) have "cols out ! j \<in> set (cols out)" by simp
    ultimately have "(''log_level_encoded'', snd (cols out ! j)) \<in> set (cols out)"
      by (metis prod.collapse)
    with only have e: "snd (cols out ! j) = enc" by blast
    from j(1,3) e have c: "c = infer_column L (map (to_csv_field L enc) enc)" by simp
    from handoff_column_keeps_missing[OF i] have "c ! i = NaN" unfolding c .
    moreover from i(1) have "i < length c" unfolding c by simp
    ultimately show ?thesis by (metis nth_mem)
  qed
  have ex: "\<exists>c. (''log_level_encoded'', c) \<in> set (zip ?names ?cs)"
  proof -
    from p have "''log_level_encoded'' \<in> set (columns out)"
      by (force simp: columns_def)
    from header_names_has[OF this] obtain j where
      j: "j < length ?names" "?names ! j = ''log_level_encoded''"
      by (auto simp: in_set_conv_nth)
    with ln have "(?names ! j, ?cs ! j) \<in> set (zip ?names ?cs)"
      by (auto simp: in_set_zip)
    with j(2) show ?thesis by auto
  qed
  from r all ex show ?thesis by simp
qed

lemma missing_encoded_rejected:
  assumes "\<forall>c. (''log_level_encoded'', c) \<in> set (cols d) \<longrightarrow> NaN \<in> set c"
  shows "\<exists>e. coerce L now d = Inl e"
proof (cases "coerce L now d")
  case (Inl e)
  then show ?thesis by blast
next
  case (Inr out)
  have "''log_level_encoded'' \<in> set int64_columns" by (simp add: int64_columns_def)
  with coerce_Inr[OF Inr, of "''log_level_encoded''"] obtain col where
    g: "getcol d ''log_level_encoded'' = Inr col" and
    ok: "\<forall>c \<in> set col. \<not> uncoercible L now ''log_level_encoded'' col c" by blast
  from getcol_labelled[OF g] assms have "NaN \<in> set col" by blast
  with ok have "\<not> uncoercible L now ''log_level_encoded'' col NaN" by blast
  then show ?thesis by (simp add: uncoercible_def int64_columns_def cast_int64_def)
qed

lemma transform_logs_cases:
  assumes "gcs w ''ai-log-raw-data-215'' ''sample_logs.csv'' = Some text"
    "read_csv L text = Inr raw"
  shows "(\<exists>e. transform_logs L w = Inl e) \<or>
         (\<exists>out. validate (normalize raw) = Inr (normalize raw) \<and>
                engineer L (clock w ''transform_logs_feature_engineering'') (normalize raw) =
                  Inr out \<and>
                transform_logs L w = Inr (to_csv L out))"
proof (cases "validate (normalize raw)")
  case (Inl e)
  with assms show ?thesis by (simp add: transform_logs_def download_def)
next
  case (Inr df)
  then have df: "df = normalize raw" by (auto simp: validate_def split: if_splits)
  show ?thesis
  proof (cases "engineer L (clock w ''transform_logs_feature_engineering'') (normalize raw)")
    case (Inl e)
    with assms Inr df show ?thesis by (simp add: transform_logs_def download_def)
  next
    case (Inr out)
    with assms \<open>validate (normalize raw) = Inr df\<close> df show ?thesis
      by (simp add: transform_logs_def download_def)
  qed
qed

text \<open>
  C10. Let the stored object read as a batch that has, in a column labelled \<open>log_level\<close>
  after normalisation, a cell that is none of \<^verbatim>\<open>INFO\<close>, \<^verbatim>\<open>WARN\<close>, \<^verbatim>\<open>ERROR\<close>. Then the run ends
  in failure and the tables of the warehouse are as they were. When the transform task
  itself succeeds, the text it hands over reads back as a table that has a column
  \<open>log_level_encoded\<close>, every column so labelled holds a missing value, and the coercion
  stage fails on it.
\<close>

theorem unmapped_level_fails_run:
  assumes "gcs w ''ai-log-raw-data-215'' ''sample_logs.csv'' = Some text"
    and "read_csv L text = Inr raw"
    and "(''log_level'', ll) \<in> set (cols (normalize raw))"
    and "c \<in> set ll" and "c \<notin> {StrV ''INFO'', StrV ''WARN'', StrV ''ERROR''}"
  shows "(\<exists>e. fst (dag_run L w) = Some e) \<and> bigquery (snd (dag_run L w)) = bigquery w \<and>
         (\<forall>handed. transform_logs L w = Inr handed \<longrightarrow>
            (\<exists>d. read_csv L handed = Inr d \<and>
                 (\<exists>enc. (''log_level_encoded'', enc) \<in> set (cols d)) \<and>
                 (\<forall>enc. (''log_level_encoded'', enc) \<in> set (cols d) \<longrightarrow> NaN \<in> set enc) \<and>
                 (\<exists>e. coerce L (clock w ''load_to_bigquery'') d = Inl e)))"
proof -
  from transform_logs_cases[OF assms(1,2)] consider
    (failed) e where "transform_logs L w = Inl e"
    | (passed) out where
        "engineer L (clock w ''transform_logs_feature_engineering'') (normalize raw) = Inr out"
        "transform_logs L w = Inr (to_csv L out)"
    by blast
  then show ?thesis
  proof cases
    case failed
    then show ?thesis by (simp add: dag_run_def)
  next
    case passed
    have w: "wf (normalize raw)" using read_csv_wf[OF assms(2)] by (simp add: wf_normalize)
    from engineer_wf[OF passed(1) w] have wo: "wf out" by simp
    from engineer_encoded[OF passed(1)] obtain ll' where
      g: "getcol (normalize raw) ''log_level'' = Inr ll'" and
      p: "(''log_level_encoded'', log_level_encoded ll') \<in> set (cols out)" and
      only: "\<forall>c. (''log_level_encoded'', c) \<in> set (cols out) \<longrightarrow> c = log_level_encoded ll'"
      by blast
    from getcol_unique[OF g assms(3)] have "ll = ll'" .
    with encoded_has_missing[OF assms(4,5)] obtain i where
      i: "i < length (log_level_encoded ll')" "log_level_encoded ll' ! i = NaN" by blast
    from handoff_encoded[OF wo p only i, of L] obtain d where
      r: "read_csv L (to_csv L out) = Inr d" and
      ex: "\<exists>c. (''log_level_encoded'', c) \<in> set (cols d)" and
      all: "\<forall>c. (''log_level_encoded'', c) \<in> set (cols d) \<longrightarrow> NaN \<in> set c"
      by blast
    from missing_encoded_rejected[OF all] have
      f: "\<exists>e. coerce L (clock w ''load_to_bigquery'') d = Inl e" .
    from dag_run_after_failed_coerce[OF f r passed(2)] r ex all f passed(2)
    show ?thesis by auto
  qed
qed

lemma demo_read_debug:
  "read_csv demo_pandas demo_object_debug =
     Inr \<lparr>nrows = 2,
          cols =
            [(''timestamp'', [StrV ''2024-01-01 10:00:00'', StrV ''2024-01-01 11:30:00'']),
             (''log_level'', [StrV ''DEBUG'', StrV ''ERROR'']),
             (''service'', [StrV ''svc-a'', StrV ''svc-a'']),
             (''message'', [StrV ''hello'', StrV ''oops'']),
             (''user_id'', [IntV 1, IntV 2])]\<rparr>"
  by code_simp

lemma demo_transform_debug:
  "transform_logs demo_pandas demo_world_debug =
     Inr [[''timestamp'', ''log_level'', ''service'', ''message'', ''user_id'', ''event_date'',
           ''hour_of_day'', ''is_error'', ''log_level_encoded'', ''message_length'',
           ''service_error_rate''],
          [''2024-01-01 10:00:00'', ''DEBUG'', ''svc-a'', ''hello'', ''1'', ''2024-01-01'', ''10'',
           ''0'', '''', ''5'', ''0.5''],
          [''2024-01-01 11:30:00'', ''ERROR'', ''svc-a'', ''oops'', ''2'', ''2024-01-01'', ''11'',
           ''1'', ''2.0'', ''4'', ''0.5'']]"
  by code_simp

theorem unmapped_level_fails_run_witness:
  "(\<exists>e. fst (dag_run demo_pandas demo_world_debug) = Some e) \<and>
   bigquery (snd (dag_run demo_pandas demo_world_debug)) = bigquery demo_world_debug \<and>
   (\<exists>handed d. transform_logs demo_pandas demo_world_debug = Inr handed \<and>
      read_csv demo_pandas handed = Inr d \<and> (\<exists>e. coerce demo_pandas demo_now d = Inl e))"
proof -
  let ?raw = "\<lparr>nrows = 2,
          cols =
            [(''timestamp'', [StrV ''2024-01-01 10:00:00'', StrV ''2024-01-01 11:30:00'']),
             (''log_level'', [StrV ''DEBUG'', StrV ''ERROR'']),
             (''service'', [StrV ''svc-a'', StrV ''svc-a'']),
             (''message'', [StrV ''hello'', StrV ''oops'']),
             (''user_id'', [IntV 1, IntV 2])]\<rparr>"
  have g: "gcs demo_world_debug ''ai-log-raw-data-215'' ''sample_logs.csv'' = Some demo_object_debug"
    by (simp add: demo_world_debug_def)
  have l: "(''log_level'', [StrV ''DEBUG'', StrV ''ERROR'']) \<in> set (cols (normalize ?raw))"
    by (simp add: normalize_def lower_def strip_def isspace_def lower_char_def)
  have m: "StrV ''DEBUG'' \<in> set [StrV ''DEBUG'', StrV ''ERROR'']" by simp
  have n: "StrV ''DEBUG'' \<notin> {StrV ''INFO'', StrV ''WARN'', StrV ''ERROR''}" by simp
  have t: "clock demo_world_debug ''load_to_bigquery'' = demo_now"
    by (simp add: demo_world_debug_def demo_clock_def)
  from unmapped_level_fails_run[OF g demo_read_debug l m n] demo_transform_debug
  show ?thesis unfolding t by blast
qed

end
